theory Spec2Isabelle
  imports Complex_Main "HOL-Library.AList" "HOL-Library.Multiset"
begin

section \<open>Python values used by the backend\<close>

text \<open>
  The backend (\<^verbatim>\<open>src/backend\<close>) is Python. Strings are modelled as \<^typ>\<open>string\<close>
  restricted to ASCII, Python integers as \<^typ>\<open>int\<close>, floating-point numbers as
  \<^typ>\<open>real\<close> (rounding is not modelled; the claims below concern order, membership and
  control flow, not the digits of a score), dictionaries as association lists in
  insertion order with distinct keys, and exceptions as values of a sum type.
\<close>

subsection \<open>\<^verbatim>\<open>str.lower\<close>, \<^verbatim>\<open>str.strip\<close> and decimal formatting\<close>

definition lower_char :: "char \<Rightarrow> char" where
  "lower_char c =
     (let n = (of_char c :: nat) in if 65 \<le> n \<and> n \<le> 90 then char_of (n + 32) else c)"

definition lower :: "string \<Rightarrow> string" where
  "lower s = map lower_char s"

text \<open>The ASCII characters for which \<^verbatim>\<open>str.isspace\<close> holds.\<close>

definition isspace :: "char \<Rightarrow> bool" where
  "isspace c =
     (let n = (of_char c :: nat) in (9 \<le> n \<and> n \<le> 13) \<or> (28 \<le> n \<and> n \<le> 32))"

definition strip :: "string \<Rightarrow> string" where
  "strip s = rev (dropWhile isspace (rev (dropWhile isspace s)))"

text \<open>\<^verbatim>\<open>word.lower().strip()\<close>, the normalisation every lookup starts with.\<close>

definition normalize_word :: "string \<Rightarrow> string" where
  "normalize_word word = strip (lower word)"

definition digit_char :: "nat \<Rightarrow> char" where
  "digit_char d = char_of (48 + d)"

function show_nat :: "nat \<Rightarrow> string" where
  "show_nat n = (if n < 10 then [digit_char n] else show_nat (n div 10) @ [digit_char (n mod 10)])"
  by pat_completeness auto
termination
  by (relation "measure (\<lambda>n. n)") auto

declare show_nat.simps [simp del]

text \<open>What an f-string prints for an \<^verbatim>\<open>int\<close>.\<close>

definition show_int :: "int \<Rightarrow> string" where
  "show_int i = (if i < 0 then CHR ''-'' # show_nat (nat (- i)) else show_nat (nat i))"

text \<open>The inverse reading of a decimal numeral, used to show that formatting is injective.\<close>

definition read_nat :: "string \<Rightarrow> nat" where
  "read_nat s = foldl (\<lambda>a c. 10 * a + (of_char c - 48)) 0 s"

subsection \<open>Exceptions\<close>

datatype exn =
    FileNotFoundError string
  | KeyError string
  | IndexError string
  | ValueError string
  | LibraryError string

text \<open>\<^verbatim>\<open>str(e)\<close>.\<close>

fun str_exn :: "exn \<Rightarrow> string" where
  "str_exn (FileNotFoundError m) = m"
| "str_exn (KeyError m) = m"
| "str_exn (IndexError m) = m"
| "str_exn (ValueError m) = m"
| "str_exn (LibraryError m) = m"

subsection \<open>Dictionaries, slices and the built-in sort\<close>

text \<open>\<^verbatim>\<open>d.get(k, 0)\<close> on a dictionary of counts.\<close>

definition dict_get0 :: "(string \<times> int) list \<Rightarrow> string \<Rightarrow> int" where
  "dict_get0 d k = (case map_of d k of None \<Rightarrow> 0 | Some v \<Rightarrow> v)"

text \<open>\<^verbatim>\<open>xs[:n]\<close>: a negative bound counts from the end.\<close>

definition slice_to :: "'a list \<Rightarrow> int \<Rightarrow> 'a list" where
  "slice_to xs n = (if 0 \<le> n then take (nat n) xs else take (nat (int (length xs) + n)) xs)"

text \<open>
  \<^verbatim>\<open>xs.sort(key=lambda x: x[1], reverse=True)\<close>: Python's sort is stable, and with
  \<^verbatim>\<open>reverse=True\<close> equal keys still keep their original relative order.
\<close>

definition sort_by_count_desc :: "(string \<times> int) list \<Rightarrow> (string \<times> int) list" where
  "sort_by_count_desc xs = sort_key (\<lambda>x. - snd x) xs"

section \<open>Model loader (\<^verbatim>\<open>services/model_loader.py\<close>)\<close>

type_synonym vec = "real list"

record tfidf_model =
  tfidf_vocab :: "(string \<times> nat) list"
  tfidf_embeddings :: "vec list"

text \<open>
  A Word2Vec model as the backend uses it: the keyed vectors in \<^verbatim>\<open>key_to_index\<close> order
  and gensim's own neighbour search, which is a library routine and therefore a field of
  the model object.
\<close>

record w2v_model =
  wv_vectors :: "(string \<times> vec) list"
  wv_most_similar :: "string \<Rightarrow> int \<Rightarrow> exn + (string \<times> real) list"

text \<open>
  The loader is modelled by the artifacts on disk: \<open>None\<close> is a missing file. Loading is
  lazy and memoised in the source; the memo does not change what an accessor returns, so
  it is not part of the state here. The two TF-IDF files are present or absent together.
\<close>

record loader =
  models_dir :: string
  tfidf_artifacts :: "tfidf_model option"
  cbow_artifact :: "w2v_model option"
  skipgram_artifact :: "w2v_model option"
  frequency_artifact :: "(string \<times> int) list option"

definition get_tfidf_embeddings :: "loader \<Rightarrow> exn + vec list" where
  "get_tfidf_embeddings ld =
     (case tfidf_artifacts ld of
        None \<Rightarrow> Inl (FileNotFoundError
          (''TF-IDF embeddings not found: '' @ models_dir ld @ ''/tfidf_word_embeddings.npy''))
      | Some m \<Rightarrow> Inr (tfidf_embeddings m))"

definition get_tfidf_vocab :: "loader \<Rightarrow> exn + (string \<times> nat) list" where
  "get_tfidf_vocab ld =
     (case tfidf_artifacts ld of
        None \<Rightarrow> Inl (FileNotFoundError
          (''TF-IDF embeddings not found: '' @ models_dir ld @ ''/tfidf_word_embeddings.npy''))
      | Some m \<Rightarrow> Inr (tfidf_vocab m))"

text \<open>
  \<^verbatim>\<open>{idx: word for word, idx in vocab.items()}\<close>: a later item overwrites an earlier one
  with the same index, so the lookup reads the items from the end.
\<close>

definition idx_to_word_of :: "(string \<times> nat) list \<Rightarrow> nat \<Rightarrow> string option" where
  "idx_to_word_of vocab = map_of (rev (map (\<lambda>(w, i). (i, w)) vocab))"

definition get_tfidf_idx_to_word :: "loader \<Rightarrow> exn + (nat \<Rightarrow> string option)" where
  "get_tfidf_idx_to_word ld =
     (case tfidf_artifacts ld of
        None \<Rightarrow> Inl (FileNotFoundError
          (''TF-IDF embeddings not found: '' @ models_dir ld @ ''/tfidf_word_embeddings.npy''))
      | Some m \<Rightarrow> Inr (idx_to_word_of (tfidf_vocab m)))"

definition get_word2vec_cbow :: "loader \<Rightarrow> exn + w2v_model" where
  "get_word2vec_cbow ld =
     (case cbow_artifact ld of
        None \<Rightarrow> Inl (FileNotFoundError
          (''Word2Vec model not found: '' @ models_dir ld @ ''/word2vec_cbow.model''))
      | Some m \<Rightarrow> Inr m)"

definition get_word2vec_skipgram :: "loader \<Rightarrow> exn + w2v_model" where
  "get_word2vec_skipgram ld =
     (case skipgram_artifact ld of
        None \<Rightarrow> Inl (FileNotFoundError
          (''Word2Vec model not found: '' @ models_dir ld @ ''/word2vec_skipgram.model''))
      | Some m \<Rightarrow> Inr m)"

text \<open>A missing frequency file is only logged: the table is then empty.\<close>

definition get_word_frequencies :: "loader \<Rightarrow> (string \<times> int) list" where
  "get_word_frequencies ld = (case frequency_artifact ld of None \<Rightarrow> [] | Some f \<Rightarrow> f)"

text \<open>\<^verbatim>\<open>is_word_in_vocab\<close>: raises when the model's file is missing.\<close>

definition is_word_in_vocab :: "loader \<Rightarrow> string \<Rightarrow> string \<Rightarrow> exn + bool" where
  "is_word_in_vocab ld word0 model_type =
     (let word = normalize_word word0 in
      if model_type = ''tfidf'' then
        (case get_tfidf_vocab ld of Inl e \<Rightarrow> Inl e
         | Inr vocab \<Rightarrow> Inr (map_of vocab word \<noteq> None))
      else if model_type = ''word2vec_cbow'' then
        (case get_word2vec_cbow ld of Inl e \<Rightarrow> Inl e
         | Inr model \<Rightarrow> Inr (map_of (wv_vectors model) word \<noteq> None))
      else if model_type = ''word2vec_skipgram'' then
        (case get_word2vec_skipgram ld of Inl e \<Rightarrow> Inl e
         | Inr model \<Rightarrow> Inr (map_of (wv_vectors model) word \<noteq> None))
      else Inr False)"

section \<open>Library routines\<close>

text \<open>
  \<^verbatim>\<open>sklearn.metrics.pairwise.cosine_similarity(v, E)[0]\<close>: every row is divided by its
  Euclidean norm (a zero norm is replaced by 1) and the score of a row is its dot product
  with the normalised query.
\<close>

definition dot :: "vec \<Rightarrow> vec \<Rightarrow> real" where
  "dot u v = sum_list (map (\<lambda>(a, b). a * b) (zip u v))"

definition l2_normalize :: "vec \<Rightarrow> vec" where
  "l2_normalize v =
     (let n = sqrt (dot v v) in map (\<lambda>a. a / (if n = 0 then 1 else n)) v)"

definition cosine_similarity :: "vec \<Rightarrow> vec list \<Rightarrow> real list" where
  "cosine_similarity v E = map (\<lambda>row. dot (l2_normalize v) (l2_normalize row)) E"

text \<open>
  The remaining library routines are parameters of the model: the MD5 hex digest of
  \<^verbatim>\<open>hashlib\<close>, the two projections of scikit-learn (either may raise), Python's
  \<^verbatim>\<open>round(x, 4)\<close>, and the order in which numpy's default sort leaves equal values
  (see \<open>argsort\<close> below).
\<close>

type_synonym coords = "(real \<times> real) list"

record libs =
  md5_hexdigest :: "string \<Rightarrow> string"
  PCA_fit_transform :: "vec list \<Rightarrow> exn + coords"
  TSNE_fit_transform :: "int \<Rightarrow> vec list \<Rightarrow> exn + coords"
  round4 :: "real \<Rightarrow> real"
  argsort_tie_rank :: "real list \<Rightarrow> nat \<Rightarrow> nat"

text \<open>
  \<^verbatim>\<open>a.argsort()\<close>: a permutation of the indices of \<open>a\<close> that sorts \<open>a\<close> in ascending
  order. The source calls it with numpy's default sort kind, which is not stable: the
  order among equal values is left to the implementation. The model takes that order from
  the parameter \<open>argsort_tie_rank\<close>: the indices are put in the order of their tie rank
  (an arbitrary function of the array and the index) and then sorted by value with a
  stable sort. Whatever the tie rank is, the result sorts \<open>a\<close>; and every permutation
  of the indices that sorts \<open>a\<close> is the result for some tie rank (lemma
  \<open>argsort_any_order\<close> below), so no order among equal values is excluded and none is
  promised.
\<close>

definition argsort :: "libs \<Rightarrow> real list \<Rightarrow> nat list" where
  "argsort lb a = sort_key (\<lambda>i. a ! i) (sort_key (argsort_tie_rank lb a) [0..<length a])"

section \<open>Embedding service (\<^verbatim>\<open>services/embedding_service.py\<close>)\<close>

type_synonym similar = "(string \<times> real) list \<times> bool \<times> string option"

text \<open>
  The loop of \<^verbatim>\<open>get_similar_words_tfidf\<close> over \<^verbatim>\<open>top_indices\<close>: it stops once
  \<^verbatim>\<open>topn\<close> results are collected and skips the query's own index.
  \<^verbatim>\<open>idx_to_word[idx]\<close> raises \<^verbatim>\<open>KeyError\<close> on an index with no word.
\<close>

fun collect_similar ::
  "int \<Rightarrow> nat \<Rightarrow> (nat \<Rightarrow> string option) \<Rightarrow> real list \<Rightarrow> nat list \<Rightarrow>
   (string \<times> real) list \<Rightarrow> exn + (string \<times> real) list" where
  "collect_similar topn word_idx idx_to_word similarities [] results = Inr results"
| "collect_similar topn word_idx idx_to_word similarities (idx # rest) results =
     (if topn \<le> int (length results) then Inr results
      else if idx \<noteq> word_idx then
        (case idx_to_word idx of
           None \<Rightarrow> Inl (KeyError (show_nat idx))
         | Some similar_word \<Rightarrow>
             collect_similar topn word_idx idx_to_word similarities rest
               (results @ [(similar_word, similarities ! idx)]))
      else collect_similar topn word_idx idx_to_word similarities rest results)"

text \<open>The body of the \<^verbatim>\<open>try\<close> block, on the normalised word.\<close>

definition tfidf_lookup :: "libs \<Rightarrow> loader \<Rightarrow> string \<Rightarrow> int \<Rightarrow> exn + similar" where
  "tfidf_lookup lb ld word topn =
     (case get_tfidf_vocab ld of Inl e \<Rightarrow> Inl e | Inr vocab \<Rightarrow>
      (case get_tfidf_embeddings ld of Inl e \<Rightarrow> Inl e | Inr embeddings \<Rightarrow>
       (case get_tfidf_idx_to_word ld of Inl e \<Rightarrow> Inl e | Inr idx_to_word \<Rightarrow>
        (case map_of vocab word of
           None \<Rightarrow> Inr ([], False, Some (''Word '' @ [CHR 0x27] @ word @ [CHR 0x27]
                      @ '' not found in TF-IDF vocabulary''))
         | Some word_idx \<Rightarrow>
             if length embeddings \<le> word_idx
             then Inl (IndexError (''index '' @ show_nat word_idx
                    @ '' is out of bounds for axis 0 with size '' @ show_nat (length embeddings)))
             else
               let word_vector = embeddings ! word_idx;
                   similarities = cosine_similarity word_vector embeddings;
                   top_indices = rev (argsort lb similarities)
               in (case collect_similar topn word_idx idx_to_word similarities top_indices [] of
                     Inl e \<Rightarrow> Inl e
                   | Inr results \<Rightarrow> Inr (results, True, None))))))"

definition get_similar_words_tfidf :: "libs \<Rightarrow> loader \<Rightarrow> string \<Rightarrow> int \<Rightarrow> similar" where
  "get_similar_words_tfidf lb ld word topn =
     (case tfidf_lookup lb ld (normalize_word word) topn of
        Inl e \<Rightarrow> ([], False, Some (str_exn e))
      | Inr r \<Rightarrow> r)"

definition word2vec_lookup :: "loader \<Rightarrow> string \<Rightarrow> string \<Rightarrow> int \<Rightarrow> exn + similar" where
  "word2vec_lookup ld word model_type topn =
     (case (if model_type = ''word2vec_cbow'' then map_sum id Some (get_word2vec_cbow ld)
            else if model_type = ''word2vec_skipgram''
                 then map_sum id Some (get_word2vec_skipgram ld)
            else Inr None) of
        Inl e \<Rightarrow> Inl e
      | Inr None \<Rightarrow> Inr ([], False, Some (''Unknown model type: '' @ model_type))
      | Inr (Some model) \<Rightarrow>
          if map_of (wv_vectors model) word = None
          then Inr ([], False, Some (''Word '' @ [CHR 0x27] @ word @ [CHR 0x27]
                 @ '' not found in '' @ model_type @ '' vocabulary''))
          else (case wv_most_similar model word topn of
                  Inl e \<Rightarrow> Inl e
                | Inr similar \<Rightarrow> Inr (similar, True, None)))"

definition get_similar_words_word2vec :: "loader \<Rightarrow> string \<Rightarrow> string \<Rightarrow> int \<Rightarrow> similar" where
  "get_similar_words_word2vec ld word model_type topn =
     (case word2vec_lookup ld (normalize_word word) model_type topn of
        Inl e \<Rightarrow> ([], False, Some (str_exn e))
      | Inr r \<Rightarrow> r)"

definition get_similar_words :: "libs \<Rightarrow> loader \<Rightarrow> string \<Rightarrow> string \<Rightarrow> int \<Rightarrow> similar" where
  "get_similar_words lb ld word model_type topn =
     (if model_type = ''tfidf'' then get_similar_words_tfidf lb ld word topn
      else if model_type \<in> set [''word2vec_cbow'', ''word2vec_skipgram'']
           then get_similar_words_word2vec ld word model_type topn
      else ([], False, Some (''Unknown model type: '' @ model_type)))"

text \<open>\<^verbatim>\<open>get_word_vector\<close>: every exception is caught and turned into \<^verbatim>\<open>None\<close>.\<close>

definition get_word_vector :: "loader \<Rightarrow> string \<Rightarrow> string \<Rightarrow> vec option" where
  "get_word_vector ld word0 model_type =
     (let word = normalize_word word0 in
      if model_type = ''tfidf'' then
        (case get_tfidf_vocab ld of Inl e \<Rightarrow> None | Inr vocab \<Rightarrow>
         (case get_tfidf_embeddings ld of Inl e \<Rightarrow> None | Inr embeddings \<Rightarrow>
          (case map_of vocab word of
             None \<Rightarrow> None
           | Some i \<Rightarrow> if i < length embeddings then Some (embeddings ! i) else None)))
      else if model_type = ''word2vec_cbow'' then
        (case get_word2vec_cbow ld of Inl e \<Rightarrow> None
         | Inr model \<Rightarrow> map_of (wv_vectors model) word)
      else if model_type = ''word2vec_skipgram'' then
        (case get_word2vec_skipgram ld of Inl e \<Rightarrow> None
         | Inr model \<Rightarrow> map_of (wv_vectors model) word)
      else None)"

text \<open>\<^verbatim>\<open>embeddings[indices]\<close>: an index out of range raises.\<close>

fun gather_rows :: "vec list \<Rightarrow> nat list \<Rightarrow> exn + vec list" where
  "gather_rows embeddings [] = Inr []"
| "gather_rows embeddings (i # rest) =
     (if length embeddings \<le> i
      then Inl (IndexError (''index '' @ show_nat i
             @ '' is out of bounds for axis 0 with size '' @ show_nat (length embeddings)))
      else (case gather_rows embeddings rest of
              Inl e \<Rightarrow> Inl e
            | Inr rows \<Rightarrow> Inr (embeddings ! i # rows)))"

text \<open>\<^verbatim>\<open>[d[w] for w in ws]\<close> on a dictionary: a missing key raises.\<close>

fun lookup_all :: "(string \<times> 'v) list \<Rightarrow> string list \<Rightarrow> exn + 'v list" where
  "lookup_all d [] = Inr []"
| "lookup_all d (w # rest) =
     (case map_of d w of
        None \<Rightarrow> Inl (KeyError ([CHR 0x27] @ w @ [CHR 0x27]))
      | Some v \<Rightarrow> (case lookup_all d rest of Inl e \<Rightarrow> Inl e | Inr vs \<Rightarrow> Inr (v # vs)))"

definition top_words_of :: "(string \<times> int) list \<Rightarrow> string list \<Rightarrow> int \<Rightarrow> string list" where
  "top_words_of frequencies keys num_words =
     (let vocab_with_freq = map (\<lambda>w. (w, dict_get0 frequencies w)) keys;
          sorted_vocab = sort_by_count_desc vocab_with_freq
      in map fst (slice_to sorted_vocab num_words))"

definition get_all_embeddings :: "loader \<Rightarrow> string \<Rightarrow> int \<Rightarrow> exn + (vec list \<times> string list)" where
  "get_all_embeddings ld model_type num_words =
     (let frequencies = get_word_frequencies ld in
      if model_type = ''tfidf'' then
        (case get_tfidf_vocab ld of Inl e \<Rightarrow> Inl e | Inr vocab \<Rightarrow>
         (case get_tfidf_embeddings ld of Inl e \<Rightarrow> Inl e | Inr embeddings \<Rightarrow>
           (let top_words = top_words_of frequencies (map fst vocab) num_words in
            (case lookup_all vocab top_words of Inl e \<Rightarrow> Inl e | Inr indices \<Rightarrow>
             (case gather_rows embeddings indices of Inl e \<Rightarrow> Inl e
              | Inr selected_embeddings \<Rightarrow> Inr (selected_embeddings, top_words))))))
      else if model_type \<in> set [''word2vec_cbow'', ''word2vec_skipgram''] then
        (case (if model_type = ''word2vec_cbow'' then get_word2vec_cbow ld
               else get_word2vec_skipgram ld) of
           Inl e \<Rightarrow> Inl e
         | Inr model \<Rightarrow>
             let all_words = map fst (wv_vectors model);
                 top_words = top_words_of frequencies all_words num_words
             in (case lookup_all (wv_vectors model) top_words of
                   Inl e \<Rightarrow> Inl e
                 | Inr selected_embeddings \<Rightarrow> Inr (selected_embeddings, top_words)))
      else Inr ([], []))"

section \<open>Dimensionality reduction service (\<^verbatim>\<open>services/dimensionality.py\<close>)\<close>

type_synonym reduction = "coords \<times> string list \<times> int list"

text \<open>
  The service's state is its cache. The model adds a log of the calls made to the two
  projection routines (the side-effect counter the specification proposes for tests):
  a call is logged with the arguments it was given.
\<close>

datatype projection_call = PCA_call "vec list" | TSNE_call int "vec list"

record service =
  cache :: "(string \<times> reduction) list"
  projection_log :: "projection_call list"

definition new_service :: service where
  "new_service = \<lparr>cache = [], projection_log = []\<rparr>"

text \<open>
  \<^verbatim>\<open>_get_cache_key\<close>: the four arguments joined by underscores (its local variable
  \<^verbatim>\<open>key_str\<close>), then hashed.
\<close>

definition key_str :: "string \<Rightarrow> string \<Rightarrow> int \<Rightarrow> int \<Rightarrow> string" where
  "key_str model_type method num_words perplexity =
     model_type @ ''_'' @ method @ ''_'' @ show_int num_words @ ''_'' @ show_int perplexity"

definition get_cache_key :: "libs \<Rightarrow> string \<Rightarrow> string \<Rightarrow> int \<Rightarrow> int \<Rightarrow> string" where
  "get_cache_key lb model_type method num_words perplexity =
     md5_hexdigest lb (key_str model_type method num_words perplexity)"

definition reduce_pca :: "libs \<Rightarrow> vec list \<Rightarrow> service \<Rightarrow> (exn + coords) \<times> service" where
  "reduce_pca lb embeddings s =
     (PCA_fit_transform lb embeddings,
      s\<lparr>projection_log := projection_log s @ [PCA_call embeddings]\<rparr>)"

text \<open>
  The perplexity \<^verbatim>\<open>reduce_tsne\<close> computes before it calls t-SNE:
  \<^verbatim>\<open>min(perplexity, max(5, (n_samples - 1) // 3))\<close>.
\<close>

definition adjusted_perplexity :: "int \<Rightarrow> int \<Rightarrow> int" where
  "adjusted_perplexity perplexity n_samples = min perplexity (max 5 ((n_samples - 1) div 3))"

definition reduce_tsne :: "libs \<Rightarrow> vec list \<Rightarrow> int \<Rightarrow> service \<Rightarrow> (exn + coords) \<times> service" where
  "reduce_tsne lb embeddings perplexity s =
     (let n_samples = int (length embeddings);
          adjusted = adjusted_perplexity perplexity n_samples;
          s1 = s\<lparr>projection_log := projection_log s @ [TSNE_call adjusted embeddings]\<rparr>
      in case TSNE_fit_transform lb adjusted embeddings of
           Inr reduced \<Rightarrow> (Inr reduced, s1)
         | Inl e \<Rightarrow> reduce_pca lb embeddings s1)"

definition get_reduced_embeddings ::
  "libs \<Rightarrow> loader \<Rightarrow> string \<Rightarrow> string \<Rightarrow> int \<Rightarrow> int \<Rightarrow> bool \<Rightarrow> service \<Rightarrow>
   (exn + reduction) \<times> service" where
  "get_reduced_embeddings lb ld model_type method num_words perplexity use_cache s =
     (let cache_key = get_cache_key lb model_type method num_words perplexity in
      case (if use_cache then map_of (cache s) cache_key else None) of
        Some hit \<Rightarrow> (Inr hit, s)
      | None \<Rightarrow>
          (case get_all_embeddings ld model_type num_words of
             Inl e \<Rightarrow> (Inl e, s)
           | Inr (embeddings, words) \<Rightarrow>
               if length words = 0 then (Inr ([], [], []), s)
               else
                 (case (if method = ''pca'' then reduce_pca lb embeddings s
                        else if method = ''tsne'' then reduce_tsne lb embeddings perplexity s
                        else (Inl (ValueError (''Unknown reduction method: '' @ method)), s)) of
                    (Inl e, s1) \<Rightarrow> (Inl e, s1)
                  | (Inr reduced, s1) \<Rightarrow>
                      let frequencies = get_word_frequencies ld;
                          word_freqs = map (dict_get0 frequencies) words;
                          result = (reduced, words, word_freqs)
                      in (Inr result, s1\<lparr>cache := AList.update cache_key result (cache s1)\<rparr>))))"

text \<open>The loop of \<^verbatim>\<open>get_word_neighborhood\<close> that keeps the words with a vector.\<close>

fun valid_entries :: "loader \<Rightarrow> string \<Rightarrow> (string \<times> real) list \<Rightarrow> (vec \<times> string \<times> real) list" where
  "valid_entries ld model_type [] = []"
| "valid_entries ld model_type ((w, sim) # rest) =
     (case get_word_vector ld w model_type of
        None \<Rightarrow> valid_entries ld model_type rest
      | Some v \<Rightarrow> (v, w, sim) # valid_entries ld model_type rest)"

type_synonym neighborhood = "coords \<times> string list \<times> real list"

definition get_word_neighborhood ::
  "libs \<Rightarrow> loader \<Rightarrow> string \<Rightarrow> string \<Rightarrow> string \<Rightarrow> int \<Rightarrow> int \<Rightarrow> service \<Rightarrow>
   (exn + neighborhood) \<times> service" where
  "get_word_neighborhood lb ld word model_type method num_neighbors perplexity s =
     (case get_similar_words lb ld word model_type num_neighbors of
        (similar_words, in_vocab, _) \<Rightarrow>
          if \<not> in_vocab then (Inr ([], [], []), s)
          else
            let words = word # map fst similar_words;
                similarities = 1 # map snd similar_words;
                valid = valid_entries ld model_type (zip words similarities);
                vectors = map fst valid;
                valid_words = map (fst \<circ> snd) valid;
                valid_similarities = map (snd \<circ> snd) valid
            in if length vectors < 2 then (Inr ([], [], []), s)
               else
                 (case (if method = ''pca'' then reduce_pca lb vectors s
                        else reduce_tsne lb vectors
                               (min perplexity (max 2 (int (length vectors) div 3))) s) of
                    (Inl e, s1) \<Rightarrow> (Inl e, s1)
                  | (Inr reduced, s1) \<Rightarrow> (Inr (reduced, valid_words, valid_similarities), s1)))"

definition clear_cache :: "service \<Rightarrow> service" where
  "clear_cache s = s\<lparr>cache := []\<rparr>"

section \<open>Routers (\<^verbatim>\<open>routers/embeddings.py\<close>, \<^verbatim>\<open>routers/similarity.py\<close>)\<close>

text \<open>
  The handlers are modelled as the functions FastAPI calls, on arguments that passed the
  declared \<^verbatim>\<open>Query\<close> bounds. A handler returns its JSON body or raises an
  \<^verbatim>\<open>HTTPException\<close>, which is the response's status code and detail.
\<close>

datatype http_exception = HTTPException (status_code: nat) (detail: string)

text \<open>What a \<^verbatim>\<open>try\<close> block of a handler can raise: a Python error or an HTTP exception.\<close>

datatype raised = Py exn | Http http_exception

fun str_raised :: "raised \<Rightarrow> string" where
  "str_raised (Py e) = str_exn e"
| "str_raised (Http (HTTPException c d)) = show_nat c @ '': '' @ d"

definition MODEL_TYPES :: "string list" where
  "MODEL_TYPES = [''tfidf'', ''word2vec_cbow'', ''word2vec_skipgram'']"

record point =
  pt_word :: string
  pt_x :: real
  pt_y :: real
  pt_similarity :: real
  pt_is_query :: bool

record neighborhood_response =
  nr_query_word :: string
  nr_model_type :: string
  nr_reduction_method :: string
  nr_points :: "point list"

text \<open>
  The loop that builds the points: \<^verbatim>\<open>reduced[i, 0]\<close> raises \<^verbatim>\<open>IndexError\<close> when the
  projection returned fewer rows than there are words.
\<close>

fun build_points :: "libs \<Rightarrow> string \<Rightarrow> coords \<Rightarrow> nat \<Rightarrow> (string \<times> real) list \<Rightarrow> point list \<Rightarrow>
                     exn + point list" where
  "build_points lb word reduced i [] points = Inr points"
| "build_points lb word reduced i ((w, sim) # rest) points =
     (if length reduced \<le> i
      then Inl (IndexError (''index '' @ show_nat i
             @ '' is out of bounds for axis 0 with size '' @ show_nat (length reduced)))
      else build_points lb word reduced (Suc i) rest
             (points @ [\<lparr>pt_word = w, pt_x = fst (reduced ! i), pt_y = snd (reduced ! i),
                         pt_similarity = round4 lb sim,
                         pt_is_query = (w = normalize_word word)\<rparr>]))"

text \<open>The body of the handler's \<^verbatim>\<open>try\<close> block.\<close>

definition neighborhood_body ::
  "libs \<Rightarrow> loader \<Rightarrow> string \<Rightarrow> string \<Rightarrow> string \<Rightarrow> int \<Rightarrow> int \<Rightarrow> service \<Rightarrow>
   (raised + neighborhood_response) \<times> service" where
  "neighborhood_body lb ld model_type word method num_neighbors perplexity s =
     (case get_word_neighborhood lb ld word model_type method num_neighbors perplexity s of
        (Inl e, s1) \<Rightarrow> (Inl (Py e), s1)
      | (Inr (reduced, words, similarities), s1) \<Rightarrow>
          if length words = 0
          then (Inl (Http (HTTPException 404
                  (''Word '' @ [CHR 0x27] @ word @ [CHR 0x27] @ '' not found in vocabulary''))), s1)
          else (case build_points lb word reduced 0 (zip words similarities) [] of
                  Inl e \<Rightarrow> (Inl (Py e), s1)
                | Inr points \<Rightarrow>
                    (Inr \<lparr>nr_query_word = normalize_word word, nr_model_type = model_type,
                          nr_reduction_method = method, nr_points = points\<rparr>, s1)))"

text \<open>
  \<^verbatim>\<open>GET /embeddings/{model_type}/neighborhood/{word}\<close>: the router's handler
  \<^verbatim>\<open>get_word_neighborhood\<close>, named \<open>neighborhood_endpoint\<close> here to keep it apart from
  the service's function of the same name. The \<^verbatim>\<open>except Exception\<close> clause encloses the
  whole body, and \<^verbatim>\<open>HTTPException\<close> is an \<^verbatim>\<open>Exception\<close>.
\<close>

definition neighborhood_endpoint ::
  "libs \<Rightarrow> loader \<Rightarrow> string \<Rightarrow> string \<Rightarrow> string \<Rightarrow> int \<Rightarrow> int \<Rightarrow> service \<Rightarrow>
   (http_exception + neighborhood_response) \<times> service" where
  "neighborhood_endpoint lb ld model_type word method num_neighbors perplexity s =
     (if model_type \<notin> set MODEL_TYPES
      then (Inl (HTTPException 400 (''Invalid model type. Available: ''
              @ ''['' @ [CHR 0x27] @ ''tfidf'' @ [CHR 0x27] @ '', '' @ [CHR 0x27] @ ''word2vec_cbow''
              @ [CHR 0x27] @ '', '' @ [CHR 0x27] @ ''word2vec_skipgram'' @ [CHR 0x27] @ '']'')), s)
      else
        (case neighborhood_body lb ld model_type word method num_neighbors perplexity s of
           (Inl e, s1) \<Rightarrow>
             (Inl (HTTPException 500 (''Error generating neighborhood: '' @ str_raised e)), s1)
         | (Inr response, s1) \<Rightarrow> (Inr response, s1)))"

record embedding_point =
  ep_word :: string
  ep_x :: real
  ep_y :: real
  ep_frequency :: int

record embeddings_response =
  er_model_type :: string
  er_reduction_method :: string
  er_num_words :: nat
  er_points :: "embedding_point list"

text \<open>The list comprehension over \<^verbatim>\<open>enumerate(zip(words, frequencies))\<close>.\<close>

fun build_embedding_points ::
  "coords \<Rightarrow> nat \<Rightarrow> (string \<times> int) list \<Rightarrow> embedding_point list \<Rightarrow> exn + embedding_point list" where
  "build_embedding_points reduced i [] points = Inr points"
| "build_embedding_points reduced i ((word, freq) # rest) points =
     (if length reduced \<le> i
      then Inl (IndexError (''index '' @ show_nat i
             @ '' is out of bounds for axis 0 with size '' @ show_nat (length reduced)))
      else build_embedding_points reduced (Suc i) rest
             (points @ [\<lparr>ep_word = word, ep_x = fst (reduced ! i), ep_y = snd (reduced ! i),
                         ep_frequency = freq\<rparr>]))"

definition embeddings_body ::
  "libs \<Rightarrow> loader \<Rightarrow> string \<Rightarrow> string \<Rightarrow> int \<Rightarrow> int \<Rightarrow> service \<Rightarrow>
   (raised + embeddings_response) \<times> service" where
  "embeddings_body lb ld model_type method num_words perplexity s =
     (case get_reduced_embeddings lb ld model_type method num_words perplexity True s of
        (Inl e, s1) \<Rightarrow> (Inl (Py e), s1)
      | (Inr (reduced, words, frequencies), s1) \<Rightarrow>
          if length words = 0
          then (Inl (Http (HTTPException 500 ''Failed to load embeddings'')), s1)
          else (case build_embedding_points reduced 0 (zip words frequencies) [] of
                  Inl e \<Rightarrow> (Inl (Py e), s1)
                | Inr points \<Rightarrow>
                    (Inr \<lparr>er_model_type = model_type, er_reduction_method = method,
                          er_num_words = length points, er_points = points\<rparr>, s1)))"

text \<open>\<^verbatim>\<open>GET /embeddings/{model_type}\<close>.\<close>

definition get_embeddings_for_visualization ::
  "libs \<Rightarrow> loader \<Rightarrow> string \<Rightarrow> string \<Rightarrow> int \<Rightarrow> int \<Rightarrow> service \<Rightarrow>
   (http_exception + embeddings_response) \<times> service" where
  "get_embeddings_for_visualization lb ld model_type method num_words perplexity s =
     (if model_type \<notin> set MODEL_TYPES
      then (Inl (HTTPException 400 (''Invalid model type. Available: ''
              @ ''['' @ [CHR 0x27] @ ''tfidf'' @ [CHR 0x27] @ '', '' @ [CHR 0x27] @ ''word2vec_cbow''
              @ [CHR 0x27] @ '', '' @ [CHR 0x27] @ ''word2vec_skipgram'' @ [CHR 0x27] @ '']'')), s)
      else if method \<notin> set [''pca'', ''tsne'']
      then (Inl (HTTPException 400
              (''Method must be '' @ [CHR 0x27] @ ''pca'' @ [CHR 0x27] @ '' or ''
               @ [CHR 0x27] @ ''tsne'' @ [CHR 0x27])), s)
      else
        (case embeddings_body lb ld model_type method num_words perplexity s of
           (Inl e, s1) \<Rightarrow>
             (Inl (HTTPException 500 (''Error generating embeddings: '' @ str_raised e)), s1)
         | (Inr response, s1) \<Rightarrow> (Inr response, s1)))"

text \<open>\<^verbatim>\<open>DELETE /embeddings/cache\<close>.\<close>

definition clear_embeddings_cache :: "service \<Rightarrow> string \<times> service" where
  "clear_embeddings_cache s = (''Cache cleared successfully'', clear_cache s)"

record batch_entry =
  be_query_word :: string
  be_similar_words :: "(string \<times> real) list"
  be_in_vocabulary :: bool
  be_message :: "string option"

text \<open>The loop of the batch handler: one entry is appended for every word, in order.\<close>

fun batch_loop :: "libs \<Rightarrow> loader \<Rightarrow> string \<Rightarrow> int \<Rightarrow> string list \<Rightarrow> batch_entry list \<Rightarrow>
                   batch_entry list" where
  "batch_loop lb ld model_type topn [] results = results"
| "batch_loop lb ld model_type topn (word # rest) results =
     (case get_similar_words lb ld word model_type topn of
        (similar_words, in_vocab, message) \<Rightarrow>
          batch_loop lb ld model_type topn rest
            (results @ [\<lparr>be_query_word = normalize_word word,
                          be_similar_words = map (\<lambda>(w, s). (w, round4 lb s)) similar_words,
                          be_in_vocabulary = in_vocab,
                          be_message = message\<rparr>]))"

text \<open>\<^verbatim>\<open>POST /similarity/batch\<close>.\<close>

definition get_similar_words_batch ::
  "libs \<Rightarrow> loader \<Rightarrow> string list \<Rightarrow> string \<Rightarrow> int \<Rightarrow> http_exception + (string \<times> batch_entry list)" where
  "get_similar_words_batch lb ld words model_type topn =
     (if model_type \<notin> set MODEL_TYPES
      then Inl (HTTPException 400 (''Invalid model type. Available: ''
              @ ''['' @ [CHR 0x27] @ ''tfidf'' @ [CHR 0x27] @ '', '' @ [CHR 0x27] @ ''word2vec_cbow''
              @ [CHR 0x27] @ '', '' @ [CHR 0x27] @ ''word2vec_skipgram'' @ [CHR 0x27] @ '']''))
      else if 20 < length words
      then Inl (HTTPException 400 ''Maximum 20 words per batch'')
      else Inr (model_type, batch_loop lb ld model_type topn words []))"

section \<open>Notions used to state the properties\<close>

text \<open>
  \<open>ranks_before r a i j\<close>: row \<open>i\<close> comes before row \<open>j\<close> in the reversed argsort of the
  scores \<open>a\<close> when \<open>r\<close> ranks the ties: a higher score first; among equal scores the
  higher tie rank first; among equal tie ranks the larger index first.
\<close>

definition ranks_before :: "(nat \<Rightarrow> nat) \<Rightarrow> real list \<Rightarrow> nat \<Rightarrow> nat \<Rightarrow> bool" where
  "ranks_before r a i j \<longleftrightarrow>
     a ! j < a ! i \<or> (a ! i = a ! j \<and> (r j < r i \<or> (r j = r i \<and> j < i)))"

text \<open>The row indices a successful TF-IDF lookup reports, in the order it reports them.\<close>

definition ranked_candidates :: "libs \<Rightarrow> tfidf_model \<Rightarrow> nat \<Rightarrow> int \<Rightarrow> nat list" where
  "ranked_candidates lb m word_idx topn =
     take (nat topn) (filter (\<lambda>i. i \<noteq> word_idx)
       (rev (argsort lb (cosine_similarity (tfidf_embeddings m ! word_idx) (tfidf_embeddings m)))))"

text \<open>The invariant of the reduction cache: every entry has a non-empty word list.\<close>

definition nonempty_entry :: "string \<times> reduction \<Rightarrow> bool" where
  "nonempty_entry e = (case e of (k, (reduced, words, word_freqs)) \<Rightarrow> words \<noteq> [])"

definition cache_ok :: "service \<Rightarrow> bool" where
  "cache_ok s = list_all nonempty_entry (cache s)"

text \<open>The requests the router lets through: a recognised model and a recognised method.\<close>

definition valid_request :: "string \<Rightarrow> string \<Rightarrow> bool" where
  "valid_request model_type method \<longleftrightarrow>
     model_type \<in> set MODEL_TYPES \<and> method \<in> set [''pca'', ''tsne'']"

text \<open>
  A model's vocabulary in its stored order, the embedding row of a vocabulary word, and
  the frequency of a word (0 when the table does not know it).
\<close>

definition vocabulary_words :: "loader \<Rightarrow> string \<Rightarrow> string list" where
  "vocabulary_words ld model_type =
     (if model_type = ''tfidf'' then
        (case tfidf_artifacts ld of None \<Rightarrow> [] | Some m \<Rightarrow> map fst (tfidf_vocab m))
      else if model_type = ''word2vec_cbow'' then
        (case cbow_artifact ld of None \<Rightarrow> [] | Some m \<Rightarrow> map fst (wv_vectors m))
      else if model_type = ''word2vec_skipgram'' then
        (case skipgram_artifact ld of None \<Rightarrow> [] | Some m \<Rightarrow> map fst (wv_vectors m))
      else [])"

definition embedding_row :: "loader \<Rightarrow> string \<Rightarrow> string \<Rightarrow> vec option" where
  "embedding_row ld model_type w =
     (if model_type = ''tfidf'' then
        (case tfidf_artifacts ld of None \<Rightarrow> None
         | Some m \<Rightarrow>
             (case map_of (tfidf_vocab m) w of None \<Rightarrow> None
              | Some i \<Rightarrow> if i < length (tfidf_embeddings m)
                          then Some (tfidf_embeddings m ! i) else None))
      else if model_type = ''word2vec_cbow'' then
        (case cbow_artifact ld of None \<Rightarrow> None | Some m \<Rightarrow> map_of (wv_vectors m) w)
      else if model_type = ''word2vec_skipgram'' then
        (case skipgram_artifact ld of None \<Rightarrow> None | Some m \<Rightarrow> map_of (wv_vectors m) w)
      else None)"

definition word_frequency :: "loader \<Rightarrow> string \<Rightarrow> int" where
  "word_frequency ld w = dict_get0 (get_word_frequencies ld) w"

section \<open>Concrete inputs\<close>

text \<open>
  A four-word TF-IDF model in which \<open>dog\<close> and \<open>fish\<close> are equally similar to \<open>cat\<close>
  (cosine 3/5), and a frequency table that does not know \<open>fish\<close>.
\<close>

definition pets_model :: tfidf_model where
  "pets_model = \<lparr>tfidf_vocab = [(''cat'', 0), (''dog'', 1), (''fish'', 2), (''bird'', 3)],
                  tfidf_embeddings = [[1, 0], [3, 4], [3, -4], [0, 1]]\<rparr>"

text \<open>A two-word CBOW model; its neighbour search is a stand-in for gensim's.\<close>

definition pets_cbow :: w2v_model where
  "pets_cbow = \<lparr>wv_vectors = [(''cat'', [1, 0]), (''dog'', [3, 4])],
                 wv_most_similar = (\<lambda>w n. Inr (take (nat n)
                    (filter (\<lambda>(x, s). x \<noteq> w) [(''cat'', 3/5), (''dog'', 3/5)])))\<rparr>"

definition pets :: loader where
  "pets = \<lparr>models_dir = ''models'', tfidf_artifacts = Some pets_model,
            cbow_artifact = Some pets_cbow, skipgram_artifact = None,
            frequency_artifact = Some [(''dog'', 7), (''cat'', 5), (''bird'', 7)]\<rparr>"

text \<open>
  Stand-ins for the library routines, used only to run the code on concrete inputs: the
  hash is the identity, a projection keeps the first two coordinates, t-SNE refuses a
  perplexity that is not below the number of samples (as scikit-learn does), rounding is
  the identity, and the sort is stable (all tie ranks are equal).
\<close>

definition first_two :: "vec \<Rightarrow> real \<times> real" where
  "first_two v = (case v of a # b # rest \<Rightarrow> (a, b) | _ \<Rightarrow> (0, 0))"

definition stub_libs :: libs where
  "stub_libs = \<lparr>md5_hexdigest = id,
                 PCA_fit_transform = (\<lambda>E. Inr (map first_two E)),
                 TSNE_fit_transform = (\<lambda>p E. if p < int (length E) then Inr (map first_two E)
                    else Inl (ValueError ''perplexity must be less than n_samples'')),
                 round4 = id,
                 argsort_tie_rank = (\<lambda>a i. 0)\<rparr>"

text \<open>
  Two variants. In the first the sort leaves equal values in descending index order (the
  tie rank of index \<open>i\<close> is \<open>length a - i\<close>). In the second t-SNE accepts every
  perplexity and answers, for every row, with the perplexity it was given.
\<close>

definition descending_ties_libs :: libs where
  "descending_ties_libs = stub_libs\<lparr>argsort_tie_rank := (\<lambda>a i. length a - i)\<rparr>"

definition echo_tsne_libs :: libs where
  "echo_tsne_libs =
     stub_libs\<lparr>TSNE_fit_transform := (\<lambda>p E. Inr (map (\<lambda>v. (of_int p, of_int p)) E))\<rparr>"

text \<open>
  A digest of fixed length, hence not injective: the first eight characters.
\<close>

definition short_digest_libs :: libs where
  "short_digest_libs = stub_libs\<lparr>md5_hexdigest := take 8\<rparr>"

text \<open>
  An input of ten rows.
\<close>

definition ten_rows :: "vec list" where
  "ten_rows = map (\<lambda>i. [real i, 1]) [0..<10]"

section \<open>The TF-IDF ranking\<close>

lemma collect_similar_Inr:
  "collect_similar topn widx i2w sims idxs acc = Inr r \<Longrightarrow>
   r = acc @ map (\<lambda>i. (the (i2w i), sims ! i))
         (take (nat (topn - int (length acc))) (filter (\<lambda>i. i \<noteq> widx) idxs))
   \<and> (\<forall>i \<in> set (take (nat (topn - int (length acc))) (filter (\<lambda>i. i \<noteq> widx) idxs)). i2w i \<noteq> None)"
proof (induction idxs arbitrary: acc)
  case Nil
  then show ?case by simp
next
  case (Cons idx rest)
  show ?case
  proof (cases "topn \<le> int (length acc)")
    case True
    with Cons.prems show ?thesis by simp
  next
    case full: False
    then have k: "nat (topn - int (length acc)) = Suc (nat (topn - int (length (acc @ [(w, s)]))))" for w s
      by simp
    show ?thesis
    proof (cases "idx = widx")
      case True
      with full Cons.prems Cons.IH[of acc] show ?thesis by simp
    next
      case False
      with full Cons.prems obtain w where w: "i2w idx = Some w"
        and rec: "collect_similar topn widx i2w sims rest (acc @ [(w, sims ! idx)]) = Inr r"
        by (auto split: option.splits)
      from Cons.IH[OF rec] False w show ?thesis
        by (simp add: k[of w "sims ! idx"] del: length_append)
    qed
  qed
qed

lemma insort_key_keeps_order:
  "sorted_wrt (\<lambda>i j. f i < f j \<or> (f i = f j \<and> P i j)) ys \<Longrightarrow> \<forall>y \<in> set ys. P x y \<Longrightarrow>
   sorted_wrt (\<lambda>i j. f i < f j \<or> (f i = f j \<and> P i j)) (insort_key f x ys)"
  for f :: "nat \<Rightarrow> 'k::linorder"
proof (induction ys)
  case Nil
  then show ?case by simp
next
  case (Cons y ys)
  then show ?case
    by (auto simp: set_insort_key)
qed

lemma sort_key_keeps_order:
  "sorted_wrt P xs \<Longrightarrow> sorted_wrt (\<lambda>i j. f i < f j \<or> (f i = f j \<and> P i j)) (sort_key f xs)"
  for f :: "nat \<Rightarrow> 'k::linorder"
proof (induction xs)
  case Nil
  then show ?case by simp
next
  case (Cons x xs)
  then show ?case
    by (auto intro!: insort_key_keeps_order)
qed

lemma argsort_sorted: "sorted (map (\<lambda>i. a ! i) (argsort lb a))"
  by (simp add: argsort_def)

lemma set_argsort: "set (argsort lb a) = {0..<length a}"
  by (simp add: argsort_def)

lemma distinct_argsort: "distinct (argsort lb a)"
  by (simp add: argsort_def)

lemma length_argsort: "length (argsort lb a) = length a"
  by (simp add: argsort_def)

lemma argsort_rev_ranked:
  "sorted_wrt (ranks_before (argsort_tie_rank lb a) a) (rev (argsort lb a))"
proof -
  let ?r = "argsort_tie_rank lb a"
  have "sorted_wrt (\<lambda>i j. ?r i < ?r j \<or> (?r i = ?r j \<and> i < j)) (sort_key ?r [0..<length a])"
    by (rule sort_key_keeps_order) simp
  then have "sorted_wrt (\<lambda>i j. a ! i < a ! j \<or>
       (a ! i = a ! j \<and> (?r i < ?r j \<or> (?r i = ?r j \<and> i < j)))) (argsort lb a)"
    unfolding argsort_def by (rule sort_key_keeps_order)
  then have "sorted_wrt (\<lambda>i j. ranks_before ?r a j i) (argsort lb a)"
    by (rule sorted_wrt_mono_rel[rotated]) (auto simp: ranks_before_def)
  then show ?thesis
    by (simp add: sorted_wrt_rev)
qed

text \<open>Every permutation of the indices that sorts the array is a possible result.\<close>

lemma position_nth:
  "distinct p \<Longrightarrow> k < length p \<Longrightarrow> length (takeWhile (\<lambda>x. x \<noteq> p ! k) p) = k"
proof (induction p arbitrary: k)
  case Nil
  then show ?case by simp
next
  case (Cons x xs)
  then show ?case
    by (cases k) auto
qed

lemma filter_eq_singleton:
  "distinct xs \<Longrightarrow> k \<in> set xs \<Longrightarrow> filter (\<lambda>x. k = x) xs = [k]"
  by (induction xs) (auto simp: filter_empty_conv)

lemma sort_key_position:
  assumes "distinct p" "set p = set xs" "distinct xs"
  shows "sort_key (\<lambda>i. length (takeWhile (\<lambda>x. x \<noteq> i) p)) xs = p"
proof (rule properties_for_sort_key)
  let ?f = "\<lambda>i. length (takeWhile (\<lambda>x. x \<noteq> i) p)"
  from assms show "mset p = mset xs"
    by (simp add: set_eq_iff_mset_eq_distinct)
  have pos: "?f (p ! k) = k" if "k < length p" for k
    using that assms(1) by (simp add: position_nth)
  have "map ?f p = [0..<length p]"
    by (rule nth_equalityI) (simp_all add: pos)
  then show "sorted (map ?f p)" by simp
  have inj: "x = y" if "x \<in> set p" "y \<in> set p" "?f x = ?f y" for x y
  proof -
    from that(1,2) obtain u v where "u < length p" "p ! u = x" "v < length p" "p ! v = y"
      by (auto simp: in_set_conv_nth)
    with pos[of u] pos[of v] that(3) show ?thesis by auto
  qed
  show "filter (\<lambda>x. ?f k = ?f x) p = filter (\<lambda>x. ?f k = ?f x) xs" if k: "k \<in> set p" for k
  proof -
    have "filter (\<lambda>x. ?f k = ?f x) p = filter (\<lambda>x. k = x) p"
      using inj[OF k] by (intro filter_cong) auto
    moreover have "filter (\<lambda>x. ?f k = ?f x) xs = filter (\<lambda>x. k = x) xs"
      using inj[OF k] assms(2) by (intro filter_cong) auto
    moreover have "filter (\<lambda>x. k = x) p = [k]" "filter (\<lambda>x. k = x) xs = [k]"
      using k assms by (simp_all add: filter_eq_singleton)
    ultimately show ?thesis by simp
  qed
qed

lemma argsort_any_order:
  assumes "distinct p" "set p = {0..<length a}" "sorted (map (\<lambda>i. a ! i) p)"
  shows "\<exists>lb. argsort lb a = p"
proof -
  let ?lb = "\<lparr>md5_hexdigest = id, PCA_fit_transform = (\<lambda>E. Inr []),
              TSNE_fit_transform = (\<lambda>q E. Inr []), round4 = id,
              argsort_tie_rank = (\<lambda>b i. length (takeWhile (\<lambda>x. x \<noteq> i) p))\<rparr>"
  have "sort_key (argsort_tie_rank ?lb a) [0..<length a] = p"
    using sort_key_position[OF assms(1), of "[0..<length a]"] assms(2) by simp
  then have "argsort ?lb a = p"
    by (simp add: argsort_def sort_key_id_if_sorted[OF assms(3)])
  then show ?thesis ..
qed

lemma idx_to_word_of_SomeD: "idx_to_word_of vocab i = Some w \<Longrightarrow> (w, i) \<in> set vocab"
  unfolding idx_to_word_of_def by (auto dest!: map_of_SomeD)

lemma idx_to_word_of_lookup:
  "distinct (map fst vocab) \<Longrightarrow> idx_to_word_of vocab i = Some w \<Longrightarrow> map_of vocab w = Some i"
  by (auto dest: idx_to_word_of_SomeD)

lemma length_cosine_similarity [simp]: "length (cosine_similarity v E) = length E"
  by (simp add: cosine_similarity_def)

lemma tfidf_results_shape:
  assumes art: "tfidf_artifacts ld = Some m"
    and idx: "map_of (tfidf_vocab m) (normalize_word word) = Some word_idx"
    and res: "get_similar_words_tfidf lb ld word topn = (results, found, message)"
  shows "results = [] \<or>
    (word_idx < length (tfidf_embeddings m) \<and>
     results = map (\<lambda>i. (the (idx_to_word_of (tfidf_vocab m) i),
                 cosine_similarity (tfidf_embeddings m ! word_idx) (tfidf_embeddings m) ! i))
                (ranked_candidates lb m word_idx topn) \<and>
     (\<forall>i \<in> set (ranked_candidates lb m word_idx topn). idx_to_word_of (tfidf_vocab m) i \<noteq> None))"
proof (cases "length (tfidf_embeddings m) \<le> word_idx")
  case True
  with art idx res show ?thesis
    by (simp add: get_similar_words_tfidf_def tfidf_lookup_def get_tfidf_vocab_def
        get_tfidf_embeddings_def get_tfidf_idx_to_word_def)
next
  case False
  let ?sims = "cosine_similarity (tfidf_embeddings m ! word_idx) (tfidf_embeddings m)"
  let ?run = "collect_similar topn word_idx (idx_to_word_of (tfidf_vocab m)) ?sims
                (rev (argsort lb ?sims)) []"
  show ?thesis
  proof (cases ?run)
    case (Inl e)
    with False art idx res show ?thesis
      by (simp add: get_similar_words_tfidf_def tfidf_lookup_def get_tfidf_vocab_def
          get_tfidf_embeddings_def get_tfidf_idx_to_word_def Let_def)
  next
    case (Inr r)
    with False art idx res have "results = r"
      by (simp add: get_similar_words_tfidf_def tfidf_lookup_def get_tfidf_vocab_def
          get_tfidf_embeddings_def get_tfidf_idx_to_word_def Let_def)
    with collect_similar_Inr[OF Inr] False show ?thesis
      by (simp add: ranked_candidates_def)
  qed
qed

lemma ranked_candidates_set:
  "i \<in> set (ranked_candidates lb m word_idx topn) \<Longrightarrow> i < length (tfidf_embeddings m) \<and> i \<noteq> word_idx"
proof -
  assume "i \<in> set (ranked_candidates lb m word_idx topn)"
  then have "i \<in> set (filter (\<lambda>i. i \<noteq> word_idx)
       (rev (argsort lb (cosine_similarity (tfidf_embeddings m ! word_idx) (tfidf_embeddings m)))))"
    unfolding ranked_candidates_def by (rule in_set_takeD)
  then show ?thesis by (simp add: set_argsort)
qed

lemma ranked_candidates_ranked:
  "sorted_wrt (ranks_before
       (argsort_tie_rank lb (cosine_similarity (tfidf_embeddings m ! word_idx) (tfidf_embeddings m)))
       (cosine_similarity (tfidf_embeddings m ! word_idx) (tfidf_embeddings m)))
     (ranked_candidates lb m word_idx topn)"
  unfolding ranked_candidates_def
  by (intro sorted_wrt_take sorted_wrt_filter argsort_rev_ranked)

lemma ranked_candidates_length: "0 \<le> topn \<Longrightarrow> int (length (ranked_candidates lb m word_idx topn)) \<le> topn"
  by (simp add: ranked_candidates_def)

lemma collect_similar_total:
  "\<forall>i \<in> set idxs. i2w i \<noteq> None \<Longrightarrow> \<exists>r. collect_similar topn widx i2w sims idxs acc = Inr r"
  by (induction idxs arbitrary: acc) auto

text \<open>
  On a model whose every row has a word, the lookup of a vocabulary word succeeds and
  reports the first \<open>topn\<close> rows of the ranking, the query's own row left out.
\<close>

lemma tfidf_lookup_succeeds:
  assumes art: "tfidf_artifacts ld = Some m"
    and idx: "map_of (tfidf_vocab m) (normalize_word word) = Some word_idx"
    and rng: "word_idx < length (tfidf_embeddings m)"
    and rows: "\<forall>i < length (tfidf_embeddings m). idx_to_word_of (tfidf_vocab m) i \<noteq> None"
  shows "get_similar_words_tfidf lb ld word topn =
     (map (\<lambda>i. (the (idx_to_word_of (tfidf_vocab m) i),
                 cosine_similarity (tfidf_embeddings m ! word_idx) (tfidf_embeddings m) ! i))
          (ranked_candidates lb m word_idx topn), True, None)"
proof -
  let ?sims = "cosine_similarity (tfidf_embeddings m ! word_idx) (tfidf_embeddings m)"
  have "\<forall>i \<in> set (rev (argsort lb ?sims)). idx_to_word_of (tfidf_vocab m) i \<noteq> None"
    using rows by (simp add: set_argsort)
  from collect_similar_total[OF this] obtain r where
    run: "collect_similar topn word_idx (idx_to_word_of (tfidf_vocab m)) ?sims
            (rev (argsort lb ?sims)) [] = Inr r"
    by blast
  from collect_similar_Inr[OF run]
  have "r = map (\<lambda>i. (the (idx_to_word_of (tfidf_vocab m) i), ?sims ! i))
              (ranked_candidates lb m word_idx topn)"
    by (simp add: ranked_candidates_def)
  with run art idx rng show ?thesis
    by (simp add: get_similar_words_tfidf_def tfidf_lookup_def get_tfidf_vocab_def
        get_tfidf_embeddings_def get_tfidf_idx_to_word_def Let_def)
qed

text \<open>
  Claim C1. For a word of the TF-IDF vocabulary and \<open>topn \<ge> 1\<close>, the lookup returns at
  most \<open>topn\<close> pairs; every pair is the word and score of a row other than the query's
  own row, so the query word is not among the words; and the scores are in non-increasing
  order.
\<close>

theorem tfidf_nearest_bounded_excludes_query_sorted:
  assumes art: "tfidf_artifacts ld = Some m"
    and dist: "distinct (map fst (tfidf_vocab m))"
    and idx: "map_of (tfidf_vocab m) (normalize_word word) = Some word_idx"
    and n: "1 \<le> topn"
    and res: "get_similar_words_tfidf lb ld word topn = (results, found, message)"
  shows "int (length results) \<le> topn \<and>
         normalize_word word \<notin> fst ` set results \<and>
         (\<forall>(w, s) \<in> set results. \<exists>i < length (tfidf_embeddings m). i \<noteq> word_idx \<and>
              idx_to_word_of (tfidf_vocab m) i = Some w \<and>
              s = cosine_similarity (tfidf_embeddings m ! word_idx) (tfidf_embeddings m) ! i) \<and>
         sorted_wrt (\<ge>) (map snd results)"
proof -
  let ?sims = "cosine_similarity (tfidf_embeddings m ! word_idx) (tfidf_embeddings m)"
  let ?L = "ranked_candidates lb m word_idx topn"
  let ?g = "\<lambda>i. (the (idx_to_word_of (tfidf_vocab m) i), ?sims ! i)"
  from tfidf_results_shape[OF art idx res]
  consider "results = []"
    | "results = map ?g ?L" "\<forall>i \<in> set ?L. idx_to_word_of (tfidf_vocab m) i \<noteq> None"
    by blast
  then show ?thesis
  proof cases
    case 1
    with n show ?thesis by simp
  next
    case 2
    have len: "int (length results) \<le> topn"
      using 2(1) n ranked_candidates_length[where topn = topn and m = m and word_idx = word_idx and lb = lb] by simp
    have rows: "\<exists>i < length (tfidf_embeddings m). i \<noteq> word_idx \<and>
              idx_to_word_of (tfidf_vocab m) i = Some w \<and> s = ?sims ! i"
      if "(w, s) \<in> set results" for w s
    proof -
      from that 2(1) obtain i where i: "i \<in> set ?L" "w = the (idx_to_word_of (tfidf_vocab m) i)"
        "s = ?sims ! i" by auto
      with 2(2) have "idx_to_word_of (tfidf_vocab m) i = Some w" by auto
      with i ranked_candidates_set[OF i(1)] show ?thesis by blast
    qed
    have query: "normalize_word word \<notin> fst ` set results"
    proof
      assume "normalize_word word \<in> fst ` set results"
      then obtain s where "(normalize_word word, s) \<in> set results" by auto
      from rows[OF this] obtain i where "i \<noteq> word_idx"
        "idx_to_word_of (tfidf_vocab m) i = Some (normalize_word word)" by blast
      with idx_to_word_of_lookup[OF dist this(2)] idx show False by simp
    qed
    have "sorted_wrt (\<lambda>i j. ?sims ! i \<ge> ?sims ! j) ?L"
      by (rule sorted_wrt_mono_rel[OF _ ranked_candidates_ranked]) (auto simp: ranks_before_def)
    then have sorted: "sorted_wrt (\<ge>) (map snd results)"
      by (simp add: 2(1) sorted_wrt_map o_def)
    from len rows query sorted show ?thesis by blast
  qed
qed

lemma sqrt_25: "sqrt 25 = 5"
  by (rule real_sqrt_unique) simp_all

lemma normalize_Cat: "normalize_word ''Cat '' = ''cat''"
  by code_simp

lemma pets_similarities:
  "cosine_similarity [1, 0] [[1, 0], [3, 4], [3, -4], [0, 1]] = [1, 3/5, 3/5, 0]"
  by (simp add: cosine_similarity_def l2_normalize_def dot_def sqrt_25)

lemma pets_argsort: "argsort stub_libs [1, 3/5, 3/5, 0] = [3, 1, 2, 0]"
  by (simp add: argsort_def stub_libs_def upt_conv_Cons)

lemma pets_cat_neighbours:
  "get_similar_words_tfidf stub_libs pets ''Cat '' 3 =
     ([(''fish'', 3/5), (''dog'', 3/5), (''bird'', 0)], True, None)"
  by (simp add: get_similar_words_tfidf_def tfidf_lookup_def pets_def pets_model_def
      get_tfidf_vocab_def get_tfidf_embeddings_def get_tfidf_idx_to_word_def idx_to_word_of_def
      normalize_Cat pets_similarities pets_argsort)

text \<open>
  The claim at the query \<open>''Cat ''\<close> on the four-word model: three neighbours, \<open>cat\<close>
  not among them, scores 3/5, 3/5, 0.
\<close>

theorem tfidf_nearest_bounded_excludes_query_sorted_witness:
  "get_similar_words_tfidf stub_libs pets ''Cat '' 3 =
     ([(''fish'', 3/5), (''dog'', 3/5), (''bird'', 0)], True, None) \<and>
   int (length [(''fish'', 3/5::real), (''dog'', 3/5), (''bird'', 0)]) \<le> 3 \<and>
   normalize_word ''Cat '' \<notin> fst ` set [(''fish'', 3/5::real), (''dog'', 3/5), (''bird'', 0)] \<and>
   sorted_wrt (\<ge>) (map snd [(''fish'', 3/5::real), (''dog'', 3/5), (''bird'', 0)])"
proof -
  have art: "tfidf_artifacts pets = Some pets_model"
    by (simp add: pets_def)
  have dist: "distinct (map fst (tfidf_vocab pets_model))"
    by (simp add: pets_model_def)
  have idx: "map_of (tfidf_vocab pets_model) (normalize_word ''Cat '') = Some 0"
    by (simp add: pets_model_def normalize_Cat)
  have n: "(1::int) \<le> 3"
    by simp
  from tfidf_nearest_bounded_excludes_query_sorted[OF art dist idx n pets_cat_neighbours]
    pets_cat_neighbours
  show ?thesis by blast
qed

lemma descending_argsort: "argsort descending_ties_libs [1, 3/5, 3/5, 0] = [3, 2, 1, 0]"
  by (simp add: argsort_def descending_ties_libs_def stub_libs_def upt_conv_Cons)

lemma pets_cat_neighbours_descending:
  "get_similar_words_tfidf descending_ties_libs pets ''Cat '' 3 =
     ([(''dog'', 3/5), (''fish'', 3/5), (''bird'', 0)], True, None)"
  by (simp add: get_similar_words_tfidf_def tfidf_lookup_def pets_def pets_model_def
      get_tfidf_vocab_def get_tfidf_embeddings_def get_tfidf_idx_to_word_def idx_to_word_of_def
      normalize_Cat pets_similarities descending_argsort)

lemma rev_positions:
  "sorted_wrt (\<lambda>x y. \<exists>u v. u < v \<and> v < length A \<and> A ! u = y \<and> A ! v = x) (rev A)"
proof -
  have "\<exists>u v. u < v \<and> v < length A \<and> A ! u = rev A ! j \<and> A ! v = rev A ! i"
    if "i < j" "j < length A" for i j
  proof (intro exI conjI)
    from that show "length A - Suc j < length A - Suc i" by simp
    from that show "length A - Suc i < length A" by simp
    from that show "A ! (length A - Suc j) = rev A ! j" by (simp add: rev_nth)
    from that show "A ! (length A - Suc i) = rev A ! i" by (simp add: rev_nth)
  qed
  then show ?thesis
    by (simp add: sorted_wrt_iff_nth_less)
qed

lemma ranked_candidates_positions:
  "sorted_wrt (\<lambda>x y. \<exists>u v. u < v \<and>
       v < length (argsort lb (cosine_similarity (tfidf_embeddings m ! word_idx) (tfidf_embeddings m))) \<and>
       argsort lb (cosine_similarity (tfidf_embeddings m ! word_idx) (tfidf_embeddings m)) ! u = y \<and>
       argsort lb (cosine_similarity (tfidf_embeddings m ! word_idx) (tfidf_embeddings m)) ! v = x)
     (ranked_candidates lb m word_idx topn)"
  unfolding ranked_candidates_def
  by (intro sorted_wrt_take sorted_wrt_filter rev_positions)

text \<open>
  Claim C3, as amended. Equal scores are ranked in the reverse of the order in which
  \<^verbatim>\<open>argsort\<close> returned their rows, and no index order is promised: whenever the result
  at position \<open>p\<close> has the same score as a later result at position \<open>q\<close>, the row of the
  word at \<open>q\<close> stands before the row of the word at \<open>p\<close> in the output of \<^verbatim>\<open>argsort\<close>
  (in the model: it has the lower tie rank, or the same tie rank and the smaller index).
  On the four-word model the tie of \<open>dog\<close> (index 1) and \<open>fish\<close> (index 2) comes out
  \<open>fish\<close> first when the sort leaves equal values in ascending index order, and \<open>dog\<close>
  first when it leaves them in descending index order.
\<close>

theorem tfidf_ties_follow_reversed_argsort:
  assumes art: "tfidf_artifacts ld = Some m"
    and dist: "distinct (map fst (tfidf_vocab m))"
    and idx: "map_of (tfidf_vocab m) (normalize_word word) = Some word_idx"
    and res: "get_similar_words_tfidf lb ld word topn = (results, found, message)"
    and pq: "p < q" "q < length results"
    and tie: "snd (results ! p) = snd (results ! q)"
  shows "(\<exists>i j. map_of (tfidf_vocab m) (fst (results ! p)) = Some i \<and>
            map_of (tfidf_vocab m) (fst (results ! q)) = Some j \<and>
            (\<exists>u v. u < v \<and>
               v < length (argsort lb
                     (cosine_similarity (tfidf_embeddings m ! word_idx) (tfidf_embeddings m))) \<and>
               argsort lb (cosine_similarity (tfidf_embeddings m ! word_idx) (tfidf_embeddings m)) ! u
                 = j \<and>
               argsort lb (cosine_similarity (tfidf_embeddings m ! word_idx) (tfidf_embeddings m)) ! v
                 = i) \<and>
            (argsort_tie_rank lb
               (cosine_similarity (tfidf_embeddings m ! word_idx) (tfidf_embeddings m)) j
             < argsort_tie_rank lb
               (cosine_similarity (tfidf_embeddings m ! word_idx) (tfidf_embeddings m)) i \<or>
             (argsort_tie_rank lb
                (cosine_similarity (tfidf_embeddings m ! word_idx) (tfidf_embeddings m)) j
              = argsort_tie_rank lb
                (cosine_similarity (tfidf_embeddings m ! word_idx) (tfidf_embeddings m)) i \<and>
              j < i))) \<and>
         fst (get_similar_words_tfidf stub_libs pets ''Cat '' 3) =
           [(''fish'', 3/5), (''dog'', 3/5), (''bird'', 0)] \<and>
         fst (get_similar_words_tfidf descending_ties_libs pets ''Cat '' 3) =
           [(''dog'', 3/5), (''fish'', 3/5), (''bird'', 0)]"
proof -
  let ?sims = "cosine_similarity (tfidf_embeddings m ! word_idx) (tfidf_embeddings m)"
  let ?A = "argsort lb ?sims"
  let ?r = "argsort_tie_rank lb ?sims"
  let ?L = "ranked_candidates lb m word_idx topn"
  let ?g = "\<lambda>i. (the (idx_to_word_of (tfidf_vocab m) i), ?sims ! i)"
  from pq have "results \<noteq> []" by auto
  with tfidf_results_shape[OF art idx res]
  have shape: "results = map ?g ?L"
    and words: "\<forall>i \<in> set ?L. idx_to_word_of (tfidf_vocab m) i \<noteq> None"
    by blast+
  from shape pq have lp: "p < length ?L" and lq: "q < length ?L"
    by (metis length_map order.strict_trans)+
  have look: "map_of (tfidf_vocab m) (fst (results ! k)) = Some (?L ! k)" if "k < length ?L" for k
  proof -
    from that words obtain w where w: "idx_to_word_of (tfidf_vocab m) (?L ! k) = Some w"
      by (metis nth_mem not_None_eq)
    have "fst (results ! k) = w"
      by (subst shape) (simp add: that w)
    with idx_to_word_of_lookup[OF dist w] show ?thesis by simp
  qed
  have sk: "snd (results ! k) = ?sims ! (?L ! k)" if "k < length ?L" for k
    by (subst shape) (simp add: that)
  from sorted_wrt_nth_less[OF ranked_candidates_ranked pq(1) lq]
  have "ranks_before ?r ?sims (?L ! p) (?L ! q)" .
  with tie sk[OF lp] sk[OF lq]
  have rank: "?r (?L ! q) < ?r (?L ! p) \<or> (?r (?L ! q) = ?r (?L ! p) \<and> ?L ! q < ?L ! p)"
    by (simp add: ranks_before_def)
  from sorted_wrt_nth_less[OF ranked_candidates_positions pq(1) lq]
  have pos: "\<exists>u v. u < v \<and> v < length ?A \<and> ?A ! u = ?L ! q \<and> ?A ! v = ?L ! p" .
  from look[OF lp] look[OF lq] pos rank
  have "\<exists>i j. map_of (tfidf_vocab m) (fst (results ! p)) = Some i \<and>
            map_of (tfidf_vocab m) (fst (results ! q)) = Some j \<and>
            (\<exists>u v. u < v \<and> v < length ?A \<and> ?A ! u = j \<and> ?A ! v = i) \<and>
            (?r j < ?r i \<or> (?r j = ?r i \<and> j < i))"
    by blast
  then show ?thesis
    by (simp add: pets_cat_neighbours pets_cat_neighbours_descending)
qed

text \<open>
  Claim C3 as stated fails: \<open>dog\<close> (index 1) and \<open>fish\<close> (index 2) have the same score
  for the query \<open>cat\<close>; the sort returns index 1 before index 2, and the reversal ranks
  \<open>fish\<close> first.
\<close>

theorem tfidf_ties_ascending_index_counterexample:
  "get_similar_words_tfidf stub_libs pets ''Cat '' 3 =
     ([(''fish'', 3/5), (''dog'', 3/5), (''bird'', 0)], True, None) \<and>
   map_of (tfidf_vocab pets_model) ''fish'' = Some 2 \<and>
   map_of (tfidf_vocab pets_model) ''dog'' = Some 1"
  using pets_cat_neighbours by (simp add: pets_model_def)

text \<open>
  The amended claim at the same query, positions 0 and 1: \<open>fish\<close> (row 2) is ranked
  before \<open>dog\<close> (row 1) because the sort returned \<open>[3, 1, 2, 0]\<close>, row 1 before row 2.
\<close>

theorem tfidf_ties_follow_reversed_argsort_witness:
  "argsort stub_libs [1, 3/5, 3/5, 0] = [3, 1, 2, 0] \<and>
   (\<exists>i j. map_of (tfidf_vocab pets_model) ''fish'' = Some i \<and>
          map_of (tfidf_vocab pets_model) ''dog'' = Some j \<and>
          (\<exists>u v. u < v \<and> v < length (argsort stub_libs [1, 3/5, 3/5, 0]) \<and>
                 argsort stub_libs [1, 3/5, 3/5, 0] ! u = j \<and>
                 argsort stub_libs [1, 3/5, 3/5, 0] ! v = i))"
proof -
  have art: "tfidf_artifacts pets = Some pets_model"
    by (simp add: pets_def)
  have dist: "distinct (map fst (tfidf_vocab pets_model))"
    by (simp add: pets_model_def)
  have idx: "map_of (tfidf_vocab pets_model) (normalize_word ''Cat '') = Some 0"
    by (simp add: pets_model_def normalize_Cat)
  have sims: "cosine_similarity (tfidf_embeddings pets_model ! 0) (tfidf_embeddings pets_model) =
      [1, 3/5, 3/5, 0]"
    using pets_similarities by (simp add: pets_model_def)
  have pq: "(0::nat) < 1" "1 < length [(''fish'', 3/5::real), (''dog'', 3/5), (''bird'', 0)]"
    "snd ([(''fish'', 3/5::real), (''dog'', 3/5), (''bird'', 0)] ! 0) =
     snd ([(''fish'', 3/5::real), (''dog'', 3/5), (''bird'', 0)] ! 1)"
    by simp_all
  from tfidf_ties_follow_reversed_argsort[OF art dist idx pets_cat_neighbours pq]
  have "\<exists>i j. map_of (tfidf_vocab pets_model) ''fish'' = Some i \<and>
          map_of (tfidf_vocab pets_model) ''dog'' = Some j \<and>
          (\<exists>u v. u < v \<and> v < length (argsort stub_libs [1, 3/5, 3/5, 0]) \<and>
                 argsort stub_libs [1, 3/5, 3/5, 0] ! u = j \<and>
                 argsort stub_libs [1, 3/5, 3/5, 0] ! v = i)"
    unfolding sims by (elim conjE exE) (simp, blast)
  with pets_argsort show ?thesis by blast
qed

section \<open>Words that are not in the vocabulary\<close>

lemma tfidf_absent_word:
  assumes "tfidf_artifacts ld = Some m" "map_of (tfidf_vocab m) (normalize_word word) = None"
  shows "get_similar_words_tfidf lb ld word topn =
     ([], False, Some (''Word '' @ [CHR 0x27] @ normalize_word word @ [CHR 0x27]
        @ '' not found in TF-IDF vocabulary''))"
  using assms
  by (simp add: get_similar_words_tfidf_def tfidf_lookup_def get_tfidf_vocab_def
      get_tfidf_embeddings_def get_tfidf_idx_to_word_def)

lemma cbow_absent_word:
  assumes "cbow_artifact ld = Some m" "map_of (wv_vectors m) (normalize_word word) = None"
  shows "get_similar_words_word2vec ld word ''word2vec_cbow'' topn =
     ([], False, Some (''Word '' @ [CHR 0x27] @ normalize_word word @ [CHR 0x27]
        @ '' not found in '' @ ''word2vec_cbow'' @ '' vocabulary''))"
  using assms
  by (simp add: get_similar_words_word2vec_def word2vec_lookup_def get_word2vec_cbow_def)

lemma skipgram_absent_word:
  assumes "skipgram_artifact ld = Some m" "map_of (wv_vectors m) (normalize_word word) = None"
  shows "get_similar_words_word2vec ld word ''word2vec_skipgram'' topn =
     ([], False, Some (''Word '' @ [CHR 0x27] @ normalize_word word @ [CHR 0x27]
        @ '' not found in '' @ ''word2vec_skipgram'' @ '' vocabulary''))"
  using assms
  by (simp add: get_similar_words_word2vec_def word2vec_lookup_def get_word2vec_skipgram_def)

lemma in_vocab_False_result:
  assumes absent: "is_word_in_vocab ld word model_type = Inr False"
  shows "\<exists>msg. get_similar_words lb ld word model_type topn = ([], False, Some msg) \<and> msg \<noteq> []"
proof -
  consider (tfidf) "model_type = ''tfidf''" | (cbow) "model_type = ''word2vec_cbow''"
    | (skipgram) "model_type = ''word2vec_skipgram''"
    | (other) "model_type \<notin> set MODEL_TYPES"
    by (auto simp: MODEL_TYPES_def)
  then show ?thesis
  proof cases
    case tfidf
    with absent obtain m where "tfidf_artifacts ld = Some m"
      "map_of (tfidf_vocab m) (normalize_word word) = None"
      by (auto simp: is_word_in_vocab_def get_tfidf_vocab_def split: option.splits)
    from tfidf_absent_word[OF this] tfidf show ?thesis
      by (simp add: get_similar_words_def)
  next
    case cbow
    with absent obtain m where "cbow_artifact ld = Some m"
      "map_of (wv_vectors m) (normalize_word word) = None"
      by (auto simp: is_word_in_vocab_def get_word2vec_cbow_def split: option.splits)
    from cbow_absent_word[OF this] cbow show ?thesis
      by (simp add: get_similar_words_def)
  next
    case skipgram
    with absent obtain m where "skipgram_artifact ld = Some m"
      "map_of (wv_vectors m) (normalize_word word) = None"
      by (auto simp: is_word_in_vocab_def get_word2vec_skipgram_def split: option.splits)
    from skipgram_absent_word[OF this] skipgram show ?thesis
      by (simp add: get_similar_words_def)
  next
    case other
    then show ?thesis
      by (simp add: get_similar_words_def MODEL_TYPES_def)
  qed
qed

text \<open>
  Claim C6. When the normalised word is not in the selected model's vocabulary
  (\<^verbatim>\<open>is_word_in_vocab\<close> answers \<open>False\<close>; for an unknown selector there is no
  vocabulary at all), the lookup returns the empty list, \<open>in_vocabulary = False\<close> and a
  non-empty message. The lookup is a total function: every exception of its body is caught.
\<close>

theorem absent_word_lookup_result:
  assumes "is_word_in_vocab ld word model_type = Inr False"
  shows "\<exists>msg. get_similar_words lb ld word model_type topn = ([], False, Some msg) \<and> msg \<noteq> []"
  using assms by (rule in_vocab_False_result)

lemma normalize_zebra: "normalize_word ''zebra'' = ''zebra''"
  by code_simp

lemma pets_zebra_lookup:
  "get_similar_words stub_libs pets ''zebra'' ''tfidf'' n =
     ([], False, Some (''Word '' @ [CHR 0x27] @ ''zebra'' @ [CHR 0x27] @ '' not found in TF-IDF vocabulary''))"
proof -
  have "tfidf_artifacts pets = Some pets_model"
    by (simp add: pets_def)
  moreover have "map_of (tfidf_vocab pets_model) (normalize_word ''zebra'') = None"
    by (simp add: pets_model_def normalize_zebra)
  ultimately show ?thesis
    by (simp add: get_similar_words_def tfidf_absent_word normalize_zebra)
qed

text \<open>
  The claim for \<open>zebra\<close>, which the four-word model does not know.
\<close>

theorem absent_word_lookup_result_witness:
  "is_word_in_vocab pets ''zebra'' ''tfidf'' = Inr False \<and>
   (\<exists>msg. get_similar_words stub_libs pets ''zebra'' ''tfidf'' 10 = ([], False, Some msg) \<and> msg \<noteq> [])"
proof -
  have absent: "is_word_in_vocab pets ''zebra'' ''tfidf'' = Inr False"
    by (simp add: is_word_in_vocab_def normalize_zebra pets_def pets_model_def get_tfidf_vocab_def)
  from absent_word_lookup_result[OF absent] absent show ?thesis by blast
qed

subsection \<open>The neighbourhood endpoint\<close>

text \<open>
  The handler raises its 404 inside the \<^verbatim>\<open>try\<close> block whose \<^verbatim>\<open>except Exception\<close>
  clause turns every exception into a 500: the client never sees the 404.
\<close>

lemma neighborhood_absent_word_500:
  assumes mt: "model_type \<in> set MODEL_TYPES"
    and res: "get_similar_words lb ld word model_type n = (sw, False, msg)"
  shows "fst (neighborhood_endpoint lb ld model_type word meth n p s) =
         Inl (HTTPException 500 (''Error generating neighborhood: '' @ show_nat 404 @ '': ''
           @ ''Word '' @ [CHR 0x27] @ word @ [CHR 0x27] @ '' not found in vocabulary''))"
  using mt res
  by (simp add: neighborhood_endpoint_def neighborhood_body_def get_word_neighborhood_def)

text \<open>
  Claim C2 fails on the code: for the TF-IDF model and the unknown word \<open>zebra\<close> the
  endpoint answers with status 500, where the claim (and the handler's own
  \<^verbatim>\<open>HTTPException(status_code=404)\<close>) says 404.
\<close>

theorem neighborhood_absent_word_status:
  "map_sum status_code nr_query_word
     (fst (neighborhood_endpoint stub_libs pets ''tfidf'' ''zebra'' ''pca'' 20 30 new_service)) = Inl 500"
proof -
  have "''tfidf'' \<in> set MODEL_TYPES" by (simp add: MODEL_TYPES_def)
  from neighborhood_absent_word_500[OF this pets_zebra_lookup] show ?thesis by simp
qed

subsection \<open>The batch endpoint\<close>

lemma batch_loop_map:
  "batch_loop lb ld mt topn ws acc =
     acc @ map (\<lambda>word. \<lparr>be_query_word = normalize_word word,
                be_similar_words = map (\<lambda>(w, s). (w, round4 lb s)) (fst (get_similar_words lb ld word mt topn)),
                be_in_vocabulary = fst (snd (get_similar_words lb ld word mt topn)),
                be_message = snd (snd (get_similar_words lb ld word mt topn))\<rparr>) ws"
  by (induction ws arbitrary: acc) (auto split: prod.splits)

text \<open>
  Claim C7. A list of more than 20 words is rejected with status 400 and no result. For
  a list of at most 20 words and a recognised model type the handler returns one entry
  per word, in order, and the entry of a word is what the single-word lookup returns for
  that word alone: its normalised form, its own \<open>in_vocabulary\<close> flag, its neighbours and
  its message, whatever the other words are.
\<close>

theorem batch_limit_and_independence:
  "(20 < length words \<longrightarrow>
      (\<exists>e. get_similar_words_batch lb ld words mt topn = Inl e \<and> status_code e = 400)) \<and>
   (length words \<le> 20 \<and> mt \<in> set MODEL_TYPES \<longrightarrow>
      (\<exists>results. get_similar_words_batch lb ld words mt topn = Inr (mt, results) \<and>
         length results = length words \<and>
         (\<forall>i < length words.
            be_query_word (results ! i) = normalize_word (words ! i) \<and>
            be_in_vocabulary (results ! i) = fst (snd (get_similar_words lb ld (words ! i) mt topn)) \<and>
            be_similar_words (results ! i) =
              map (\<lambda>(w, s). (w, round4 lb s)) (fst (get_similar_words lb ld (words ! i) mt topn)) \<and>
            be_message (results ! i) = snd (snd (get_similar_words lb ld (words ! i) mt topn)))))"
  by (auto simp: get_similar_words_batch_def batch_loop_map)

lemma pets_cat_lookup:
  "get_similar_words stub_libs pets ''Cat '' ''tfidf'' 3 =
     ([(''fish'', 3/5), (''dog'', 3/5), (''bird'', 0)], True, None)"
  by (simp add: get_similar_words_def pets_cat_neighbours)

text \<open>
  The claim on 21 words (rejected) and on the two words \<open>''Cat ''\<close> and \<open>zebra\<close>:
  the first is found, the second is not, and both are reported.
\<close>

theorem batch_limit_and_independence_witness:
  "map_sum status_code fst
     (get_similar_words_batch stub_libs pets (replicate 21 ''cat'') ''tfidf'' 3) = Inl 400 \<and>
   (\<exists>results. get_similar_words_batch stub_libs pets [''Cat '', ''zebra''] ''tfidf'' 3 =
        Inr (''tfidf'', results) \<and> map be_in_vocabulary results = [True, False])"
proof -
  have "20 < length (replicate 21 ''cat'')"
    by simp
  with batch_limit_and_independence[of "replicate 21 ''cat''" stub_libs pets "''tfidf''" 3]
  obtain e where "get_similar_words_batch stub_libs pets (replicate 21 ''cat'') ''tfidf'' 3 = Inl e"
    "status_code e = 400" by blast
  then have rejected: "map_sum status_code fst
     (get_similar_words_batch stub_libs pets (replicate 21 ''cat'') ''tfidf'' 3) = Inl 400"
    by simp
  have "length [''Cat '', ''zebra''] \<le> 20 \<and> ''tfidf'' \<in> set MODEL_TYPES"
    by (simp add: MODEL_TYPES_def)
  with batch_limit_and_independence[of "[''Cat '', ''zebra'']" stub_libs pets "''tfidf''" 3]
  obtain results where
    run: "get_similar_words_batch stub_libs pets [''Cat '', ''zebra''] ''tfidf'' 3 = Inr (''tfidf'', results)"
    and len: "length results = length [''Cat '', ''zebra'']"
    and each: "\<forall>i < length [''Cat '', ''zebra''].
       be_in_vocabulary (results ! i) =
         fst (snd (get_similar_words stub_libs pets ([''Cat '', ''zebra''] ! i) ''tfidf'' 3))"
    by blast
  from len obtain a b where ab: "results = [a, b]"
    by (auto simp: length_Suc_conv)
  from each have "be_in_vocabulary (results ! 0) = True" "be_in_vocabulary (results ! 1) = False"
    by (simp_all add: pets_cat_lookup pets_zebra_lookup)
  with ab have "map be_in_vocabulary results = [True, False]"
    by simp
  with run rejected show ?thesis
    by (intro conjI exI[of _ results]) simp_all
qed

section \<open>The reduction cache\<close>

lemma list_all_update:
  "list_all P al \<Longrightarrow> P (k, v) \<Longrightarrow> list_all P (AList.update k v al)"
  by (induction al) auto

lemma reduce_pca_cache [simp]: "cache (snd (reduce_pca lb E s)) = cache s"
  by (simp add: reduce_pca_def)

lemma reduce_tsne_cache [simp]: "cache (snd (reduce_tsne lb E p s)) = cache s"
  by (simp add: reduce_tsne_def Let_def reduce_pca_def split: sum.splits)

lemma get_reduced_embeddings_hit:
  assumes "map_of (cache s) (get_cache_key lb mt meth nw p) = Some r"
  shows "get_reduced_embeddings lb ld mt meth nw p True s = (Inr r, s)"
  using assms by (simp add: get_reduced_embeddings_def)

lemma get_reduced_embeddings_no_words:
  assumes "\<not> use_cache \<or> map_of (cache s) (get_cache_key lb mt meth nw p) = None"
    and "get_all_embeddings ld mt nw = Inr (E, [])"
  shows "get_reduced_embeddings lb ld mt meth nw p use_cache s = (Inr ([], [], []), s)"
  using assms by (auto simp: get_reduced_embeddings_def Let_def)

text \<open>
  What a call that misses the cache and finds words does.
\<close>

lemma get_reduced_embeddings_miss:
  assumes miss: "\<not> use_cache \<or> map_of (cache s) (get_cache_key lb mt meth nw p) = None"
    and emb: "get_all_embeddings ld mt nw = Inr (E, ws)" and ws: "ws \<noteq> []"
  shows "get_reduced_embeddings lb ld mt meth nw p use_cache s =
     (case (if meth = ''pca'' then reduce_pca lb E s
            else if meth = ''tsne'' then reduce_tsne lb E p s
            else (Inl (ValueError (''Unknown reduction method: '' @ meth)), s)) of
        (Inl e, s1) \<Rightarrow> (Inl e, s1)
      | (Inr reduced, s1) \<Rightarrow>
          (Inr (reduced, ws, map (dict_get0 (get_word_frequencies ld)) ws),
           s1\<lparr>cache := AList.update (get_cache_key lb mt meth nw p)
                 (reduced, ws, map (dict_get0 (get_word_frequencies ld)) ws) (cache s1)\<rparr>))"
proof -
  from miss have "(if use_cache then map_of (cache s) (get_cache_key lb mt meth nw p) else None) = None"
    by auto
  with emb ws show ?thesis
    by (auto simp: get_reduced_embeddings_def Let_def split: prod.splits sum.splits)
qed

text \<open>
  The five ways a call can go.
\<close>

lemma get_reduced_embeddings_cases:
  obtains (hit) r where "use_cache" "map_of (cache s) (get_cache_key lb mt meth nw p) = Some r"
      "get_reduced_embeddings lb ld mt meth nw p use_cache s = (Inr r, s)"
  | (failed) e where "get_all_embeddings ld mt nw = Inl e"
      "get_reduced_embeddings lb ld mt meth nw p use_cache s = (Inl e, s)"
  | (empty) E where "get_all_embeddings ld mt nw = Inr (E, [])"
      "get_reduced_embeddings lb ld mt meth nw p use_cache s = (Inr ([], [], []), s)"
  | (raised) E ws e s1 where "get_all_embeddings ld mt nw = Inr (E, ws)" "ws \<noteq> []"
      "get_reduced_embeddings lb ld mt meth nw p use_cache s = (Inl e, s1)" "cache s1 = cache s"
  | (computed) E ws reduced s1 where
      "\<not> use_cache \<or> map_of (cache s) (get_cache_key lb mt meth nw p) = None"
      "get_all_embeddings ld mt nw = Inr (E, ws)" "ws \<noteq> []" "cache s1 = cache s"
      "get_reduced_embeddings lb ld mt meth nw p use_cache s =
         (Inr (reduced, ws, map (dict_get0 (get_word_frequencies ld)) ws),
          s1\<lparr>cache := AList.update (get_cache_key lb mt meth nw p)
                (reduced, ws, map (dict_get0 (get_word_frequencies ld)) ws) (cache s1)\<rparr>)"
proof (cases "if use_cache then map_of (cache s) (get_cache_key lb mt meth nw p) else None")
  case (Some r)
  then have "use_cache" "map_of (cache s) (get_cache_key lb mt meth nw p) = Some r"
    by (auto split: if_splits)
  with hit get_reduced_embeddings_hit[OF this(2)] show ?thesis by auto
next
  case None
  then have miss: "\<not> use_cache \<or> map_of (cache s) (get_cache_key lb mt meth nw p) = None"
    by (auto split: if_splits)
  note none = None
  show ?thesis
  proof (cases "get_all_embeddings ld mt nw")
    case (Inl e)
    with none have "get_reduced_embeddings lb ld mt meth nw p use_cache s = (Inl e, s)"
      by (simp add: get_reduced_embeddings_def)
    with Inl failed show ?thesis by blast
  next
    case (Inr pair)
    obtain E ws where pair: "pair = (E, ws)" by (cases pair)
    show ?thesis
    proof (cases "ws = []")
      case True
      with Inr pair get_reduced_embeddings_no_words[OF miss] empty show ?thesis by blast
    next
      case ws: False
      let ?run = "if meth = ''pca'' then reduce_pca lb E s
            else if meth = ''tsne'' then reduce_tsne lb E p s
            else (Inl (ValueError (''Unknown reduction method: '' @ meth)), s)"
      obtain out s1 where run: "?run = (out, s1)" by (cases ?run)
      have "cache (snd ?run) = cache s"
        by simp
      with run have c: "cache s1 = cache s"
        by simp
      from Inr pair have emb: "get_all_embeddings ld mt nw = Inr (E, ws)" by simp
      note eq = get_reduced_embeddings_miss[OF miss emb ws]
      show ?thesis
      proof (cases out)
        case (Inl e)
        with eq run have "get_reduced_embeddings lb ld mt meth nw p use_cache s = (Inl e, s1)"
          by simp
        with raised emb ws c show ?thesis by blast
      next
        case (Inr reduced)
        with eq run have "get_reduced_embeddings lb ld mt meth nw p use_cache s =
         (Inr (reduced, ws, map (dict_get0 (get_word_frequencies ld)) ws),
          s1\<lparr>cache := AList.update (get_cache_key lb mt meth nw p)
                (reduced, ws, map (dict_get0 (get_word_frequencies ld)) ws) (cache s1)\<rparr>)"
          by simp
        with computed miss emb ws c show ?thesis by blast
      qed
    qed
  qed
qed

lemma get_reduced_embeddings_cache_ok:
  assumes "cache_ok s"
  shows "cache_ok (snd (get_reduced_embeddings lb ld mt meth nw p use_cache s))"
proof (cases rule: get_reduced_embeddings_cases[of use_cache s lb mt meth nw p ld])
  case (computed E ws reduced s1)
  with assms show ?thesis
    by (simp add: cache_ok_def list_all_update nonempty_entry_def)
qed (use assms in \<open>simp_all add: cache_ok_def\<close>)

subsection \<open>Running the service on the four-word model\<close>

lemma key_tfidf_pca_2_30: "key_str ''tfidf'' ''pca'' 2 30 = ''tfidf_pca_2_30''"
  by code_simp

lemma key_tfidf_tsne_4_30: "key_str ''tfidf'' ''tsne'' 4 30 = ''tfidf_tsne_4_30''"
  by code_simp

lemma pets_sorted_vocab:
  "sort_by_count_desc [(''cat'', 5), (''dog'', 7), (''fish'', 0), (''bird'', 7)] =
     [(''dog'', 7), (''bird'', 7), (''cat'', 5), (''fish'', 0)]"
  by (simp add: sort_by_count_desc_def)

lemma pets_frequencies:
  "get_word_frequencies pets = [(''dog'', 7), (''cat'', 5), (''bird'', 7)]"
  by (simp add: get_word_frequencies_def pets_def)

lemma pets_vocab:
  "get_tfidf_vocab pets = Inr [(''cat'', 0), (''dog'', 1), (''fish'', 2), (''bird'', 3)]"
  by (simp add: get_tfidf_vocab_def pets_def pets_model_def)

lemma pets_embeddings: "get_tfidf_embeddings pets = Inr [[1, 0], [3, 4], [3, -4], [0, 1]]"
  by (simp add: get_tfidf_embeddings_def pets_def pets_model_def)

lemma pets_top2: "get_all_embeddings pets ''tfidf'' 2 = Inr ([[3, 4], [0, 1]], [''dog'', ''bird''])"
  by (simp add: get_all_embeddings_def pets_frequencies pets_vocab pets_embeddings
      top_words_of_def dict_get0_def pets_sorted_vocab slice_to_def)

lemma pets_top4:
  "get_all_embeddings pets ''tfidf'' 4 =
     Inr ([[3, 4], [0, 1], [1, 0], [3, -4]], [''dog'', ''bird'', ''cat'', ''fish''])"
  by (simp add: get_all_embeddings_def pets_frequencies pets_vocab pets_embeddings
      top_words_of_def dict_get0_def pets_sorted_vocab slice_to_def)

lemma pets_bogus: "get_all_embeddings pets ''bogus'' 2 = Inr ([], [])"
  by (simp add: get_all_embeddings_def)

lemma pets_reduced_pca:
  "get_reduced_embeddings stub_libs pets ''tfidf'' ''pca'' 2 30 True new_service =
     (Inr ([(3, 4), (0, 1)], [''dog'', ''bird''], [7, 7]),
      \<lparr>cache = [(''tfidf_pca_2_30'', ([(3, 4), (0, 1)], [''dog'', ''bird''], [7, 7]))],
       projection_log = [PCA_call [[3, 4], [0, 1]]]\<rparr>)"
  by (simp add: get_reduced_embeddings_def get_cache_key_def key_tfidf_pca_2_30 pets_top2
      new_service_def stub_libs_def reduce_pca_def first_two_def dict_get0_def pets_frequencies
      Let_def)

lemma pets_reduced_tsne:
  "get_reduced_embeddings stub_libs pets ''tfidf'' ''tsne'' 4 30 True new_service =
     (Inr ([(3, 4), (0, 1), (1, 0), (3, -4)], [''dog'', ''bird'', ''cat'', ''fish''], [7, 7, 5, 0]),
      \<lparr>cache = [(''tfidf_tsne_4_30'',
          ([(3, 4), (0, 1), (1, 0), (3, -4)], [''dog'', ''bird'', ''cat'', ''fish''], [7, 7, 5, 0]))],
       projection_log = [TSNE_call 5 [[3, 4], [0, 1], [1, 0], [3, -4]],
                         PCA_call [[3, 4], [0, 1], [1, 0], [3, -4]]]\<rparr>)"
  by (simp add: get_reduced_embeddings_def get_cache_key_def key_tfidf_tsne_4_30 pets_top4
      new_service_def stub_libs_def reduce_pca_def reduce_tsne_def adjusted_perplexity_def
      first_two_def dict_get0_def pets_frequencies Let_def)

subsection \<open>The perplexity handed to t-SNE\<close>

lemma reduce_tsne_log:
  "\<exists>rest. projection_log (snd (reduce_tsne lb E p s)) =
     projection_log s @ TSNE_call (min p (max 5 ((int (length E) - 1) div 3))) E # rest"
  by (simp add: reduce_tsne_def Let_def reduce_pca_def adjusted_perplexity_def split: sum.splits)

lemma reduce_tsne_result:
  "fst (reduce_tsne lb E p s) =
     (case TSNE_fit_transform lb (min p (max 5 ((int (length E) - 1) div 3))) E of
        Inr reduced \<Rightarrow> Inr reduced
      | Inl e \<Rightarrow> PCA_fit_transform lb E)"
  by (simp add: reduce_tsne_def Let_def reduce_pca_def adjusted_perplexity_def split: sum.splits)

lemma cache_update_log [simp]: "projection_log (s\<lparr>cache := c\<rparr>) = projection_log s"
  by simp

lemma echo_tsne:
  "TSNE_fit_transform echo_tsne_libs p E = Inr (map (\<lambda>v. (of_int p, of_int p)) E)"
  "md5_hexdigest echo_tsne_libs = id"
  by (simp_all add: echo_tsne_libs_def stub_libs_def)

lemma ten_rows_length: "length ten_rows = 10"
  by (simp add: ten_rows_def)

text \<open>
  Claim C4. A full-visualization request with method \<open>tsne\<close> that reaches the reduction
  (a cache miss, \<open>n_samples\<close> selected rows) calls the t-SNE routine with perplexity
  \<open>min p (max 5 ((n_samples - 1) div 3))\<close>, where \<open>div\<close> is floor division, and with no
  other: the coordinates it returns are the ones t-SNE gave for that perplexity (those of
  PCA when t-SNE raised), both for \<^verbatim>\<open>reduce_tsne\<close> and for the request as a whole, and
  this call is the first one the request logs. For perplexity 30 on an input of 10 rows
  the routine is called with perplexity 5.
\<close>

theorem tsne_effective_perplexity:
  assumes miss: "\<not> use_cache \<or> map_of (cache s) (get_cache_key lb mt ''tsne'' nw p) = None"
    and emb: "get_all_embeddings ld mt nw = Inr (E, ws)" and ws: "ws \<noteq> []"
  shows "fst (reduce_tsne lb E p s) =
           (case TSNE_fit_transform lb (min p (max 5 ((int (length E) - 1) div 3))) E of
              Inr reduced \<Rightarrow> Inr reduced
            | Inl e \<Rightarrow> PCA_fit_transform lb E) \<and>
         fst (get_reduced_embeddings lb ld mt ''tsne'' nw p use_cache s) =
           (case (case TSNE_fit_transform lb (min p (max 5 ((int (length E) - 1) div 3))) E of
                    Inr reduced \<Rightarrow> Inr reduced
                  | Inl e \<Rightarrow> PCA_fit_transform lb E) of
              Inr reduced \<Rightarrow> Inr (reduced, ws, map (dict_get0 (get_word_frequencies ld)) ws)
            | Inl e \<Rightarrow> Inl e) \<and>
         (\<exists>rest. projection_log (snd (get_reduced_embeddings lb ld mt ''tsne'' nw p use_cache s)) =
            projection_log s @ TSNE_call (min p (max 5 ((int (length E) - 1) div 3))) E # rest) \<and>
         adjusted_perplexity p (int (length E)) = min p (max 5 ((int (length E) - 1) div 3)) \<and>
         adjusted_perplexity 30 10 = 5 \<and>
         (length E' = 10 \<longrightarrow>
            fst (reduce_tsne lb E' 30 s') =
              (case TSNE_fit_transform lb 5 E' of
                 Inr reduced \<Rightarrow> Inr reduced
               | Inl e \<Rightarrow> PCA_fit_transform lb E') \<and>
            (\<exists>rest. projection_log (snd (reduce_tsne lb E' 30 s')) =
               projection_log s' @ TSNE_call 5 E' # rest))"
proof -
  obtain out s1 where run: "reduce_tsne lb E p s = (out, s1)"
    by (cases "reduce_tsne lb E p s")
  from reduce_tsne_log[of lb E p s] run obtain rest where
    log: "projection_log s1 =
      projection_log s @ TSNE_call (min p (max 5 ((int (length E) - 1) div 3))) E # rest"
    by auto
  from reduce_tsne_result[of lb E p s] run
  have out: "out =
      (case TSNE_fit_transform lb (min p (max 5 ((int (length E) - 1) div 3))) E of
         Inr reduced \<Rightarrow> Inr reduced
       | Inl e \<Rightarrow> PCA_fit_transform lb E)"
    by simp
  have step: "get_reduced_embeddings lb ld mt ''tsne'' nw p use_cache s =
      (case out of
         Inl e \<Rightarrow> (Inl e, s1)
       | Inr reduced \<Rightarrow>
           (Inr (reduced, ws, map (dict_get0 (get_word_frequencies ld)) ws),
            s1\<lparr>cache := AList.update (get_cache_key lb mt ''tsne'' nw p)
                  (reduced, ws, map (dict_get0 (get_word_frequencies ld)) ws) (cache s1)\<rparr>))"
    by (cases out) (simp_all add: get_reduced_embeddings_miss[OF miss emb ws] run)
  have logged: "projection_log (snd (get_reduced_embeddings lb ld mt ''tsne'' nw p use_cache s)) =
        projection_log s1"
    unfolding step by (cases out) simp_all
  have result: "fst (get_reduced_embeddings lb ld mt ''tsne'' nw p use_cache s) =
      (case out of
         Inr reduced \<Rightarrow> Inr (reduced, ws, map (dict_get0 (get_word_frequencies ld)) ws)
       | Inl e \<Rightarrow> Inl e)"
    unfolding step by (cases out) simp_all
  have ten: "fst (reduce_tsne lb E' 30 s') =
        (case TSNE_fit_transform lb 5 E' of
           Inr reduced \<Rightarrow> Inr reduced
         | Inl e \<Rightarrow> PCA_fit_transform lb E') \<and>
      (\<exists>rest. projection_log (snd (reduce_tsne lb E' 30 s')) =
         projection_log s' @ TSNE_call 5 E' # rest)"
    if "length E' = 10"
    using reduce_tsne_result[of lb E' 30 s'] reduce_tsne_log[of lb E' 30 s'] that by simp
  have adj: "adjusted_perplexity p (int (length E)) = min p (max 5 ((int (length E) - 1) div 3))"
    "adjusted_perplexity 30 10 = 5"
    by (simp_all add: adjusted_perplexity_def)
  from reduce_tsne_result[of lb E p s] result[unfolded out] logged log adj ten
  show ?thesis
    by (intro conjI impI) simp_all
qed

text \<open>
  The claim on the four-word model with perplexity 30. With the t-SNE that refuses a
  perplexity not below the number of rows, the routine is called with 5, refuses it
  (5 is not below 4) and PCA takes over. With the t-SNE that answers with the perplexity
  it was given, every coordinate of the request's result is 5, on the four words and on
  an input of ten rows.
\<close>

theorem tsne_effective_perplexity_witness:
  "projection_log (snd (get_reduced_embeddings stub_libs pets ''tfidf'' ''tsne'' 4 30 True new_service)) =
     [TSNE_call 5 [[3, 4], [0, 1], [1, 0], [3, -4]], PCA_call [[3, 4], [0, 1], [1, 0], [3, -4]]] \<and>
   (\<exists>rest. projection_log (snd (get_reduced_embeddings stub_libs pets ''tfidf'' ''tsne'' 4 30 True new_service)) =
      projection_log new_service @
        TSNE_call (min 30 (max 5 ((int (length [[3, 4], [0, 1], [1, 0], [3, -4::real]]) - 1) div 3)))
          [[3, 4], [0, 1], [1, 0], [3, -4]] # rest) \<and>
   adjusted_perplexity 30 10 = 5 \<and>
   fst (get_reduced_embeddings echo_tsne_libs pets ''tfidf'' ''tsne'' 4 30 True new_service) =
     Inr ([(5, 5), (5, 5), (5, 5), (5, 5)], [''dog'', ''bird'', ''cat'', ''fish''], [7, 7, 5, 0]) \<and>
   length ten_rows = 10 \<and>
   fst (reduce_tsne echo_tsne_libs ten_rows 30 new_service) = Inr (map (\<lambda>v. (5, 5)) ten_rows)"
proof -
  have miss: "\<not> True \<or> map_of (cache new_service) (get_cache_key stub_libs ''tfidf'' ''tsne'' 4 30) = None"
    by (simp add: new_service_def)
  have miss': "\<not> True \<or> map_of (cache new_service) (get_cache_key echo_tsne_libs ''tfidf'' ''tsne'' 4 30) = None"
    by (simp add: new_service_def)
  have ws: "[''dog'', ''bird'', ''cat'', ''fish''] \<noteq> []"
    by simp
  from tsne_effective_perplexity[OF miss pets_top4 ws] pets_reduced_tsne
  have first: "projection_log (snd (get_reduced_embeddings stub_libs pets ''tfidf'' ''tsne'' 4 30 True new_service)) =
       [TSNE_call 5 [[3, 4], [0, 1], [1, 0], [3, -4]], PCA_call [[3, 4], [0, 1], [1, 0], [3, -4]]] \<and>
     (\<exists>rest. projection_log (snd (get_reduced_embeddings stub_libs pets ''tfidf'' ''tsne'' 4 30 True new_service)) =
        projection_log new_service @
          TSNE_call (min 30 (max 5 ((int (length [[3, 4], [0, 1], [1, 0], [3, -4::real]]) - 1) div 3)))
            [[3, 4], [0, 1], [1, 0], [3, -4]] # rest) \<and>
     adjusted_perplexity 30 10 = 5"
    by simp
  from tsne_effective_perplexity[OF miss' pets_top4 ws,
      where E' = ten_rows and s' = new_service]
  have second: "fst (get_reduced_embeddings echo_tsne_libs pets ''tfidf'' ''tsne'' 4 30 True new_service) =
       Inr ([(5, 5), (5, 5), (5, 5), (5, 5)], [''dog'', ''bird'', ''cat'', ''fish''], [7, 7, 5, 0]) \<and>
     fst (reduce_tsne echo_tsne_libs ten_rows 30 new_service) = Inr (map (\<lambda>v. (5, 5)) ten_rows)"
    by (simp add: echo_tsne pets_frequencies dict_get0_def ten_rows_length)
  from first second ten_rows_length show ?thesis
    by blast
qed

subsection \<open>No empty entry\<close>

text \<open>
  Claim C10. Every entry of the reduction cache has a non-empty word list. The invariant
  holds of the new service and is preserved by every operation that touches the service:
  a full-visualization request and a neighbourhood request (service and endpoint), and
  clearing the cache (service and endpoint). A full-visualization request that finds no
  words returns the empty result and leaves the service as it was.
\<close>

theorem reduction_cache_entries_nonempty:
  "cache_ok new_service \<and>
   (cache_ok s \<longrightarrow>
      cache_ok (snd (get_reduced_embeddings lb ld mt meth nw p use_cache s)) \<and>
      cache_ok (snd (get_embeddings_for_visualization lb ld mt meth nw p s)) \<and>
      cache_ok (snd (get_word_neighborhood lb ld word mt meth nn p s)) \<and>
      cache_ok (snd (neighborhood_endpoint lb ld mt word meth nn p s)) \<and>
      cache_ok (clear_cache s) \<and>
      cache_ok (snd (clear_embeddings_cache s))) \<and>
   ((\<not> use_cache \<or> map_of (cache s) (get_cache_key lb mt meth nw p) = None) \<and>
    get_all_embeddings ld mt nw = Inr (E, []) \<longrightarrow>
      get_reduced_embeddings lb ld mt meth nw p use_cache s = (Inr ([], [], []), s))"
proof -
  have nb: "cache (snd (get_word_neighborhood lb ld word mt meth nn p s)) = cache s"
  proof -
    have after: "cache (snd (case run of (Inl e, s1) \<Rightarrow> (Inl e, s1)
                 | (Inr reduced, s1) \<Rightarrow> (Inr (f reduced), s1))) = cache (snd run)"
      for run :: "(exn + coords) \<times> service" and f :: "coords \<Rightarrow> neighborhood"
      by (cases run; cases "fst run") auto
    show ?thesis
      unfolding get_word_neighborhood_def Let_def
      by (simp add: after split: prod.splits)
  qed
  have ep: "cache (snd (neighborhood_endpoint lb ld mt word meth nn p s)) = cache s"
    using nb
    by (auto simp: neighborhood_endpoint_def neighborhood_body_def split: prod.splits sum.splits)
  have vis: "cache (snd (get_embeddings_for_visualization lb ld mt meth nw p s)) = cache s \<or>
      cache (snd (get_embeddings_for_visualization lb ld mt meth nw p s)) =
      cache (snd (get_reduced_embeddings lb ld mt meth nw p True s))"
    by (auto simp: get_embeddings_for_visualization_def embeddings_body_def
        split: prod.splits sum.splits)
  from vis get_reduced_embeddings_cache_ok[of s lb ld mt meth nw p True]
  have vis_ok: "cache_ok s \<Longrightarrow>
      cache_ok (snd (get_embeddings_for_visualization lb ld mt meth nw p s))"
    by (auto simp: cache_ok_def)
  show ?thesis
    using get_reduced_embeddings_cache_ok[of s lb ld mt meth nw p use_cache]
      get_reduced_embeddings_no_words[of use_cache s lb mt meth nw p ld E] nb ep vis_ok
    by (simp add: cache_ok_def new_service_def clear_cache_def clear_embeddings_cache_def)
qed

text \<open>
  The claim on the new service: a PCA request stores one entry, with two words; a request
  for an unknown model returns the empty result and stores nothing.
\<close>

theorem reduction_cache_entries_nonempty_witness:
  "cache_ok (snd (get_reduced_embeddings stub_libs pets ''tfidf'' ''pca'' 2 30 True new_service)) \<and>
   cache (snd (get_reduced_embeddings stub_libs pets ''tfidf'' ''pca'' 2 30 True new_service)) =
     [(''tfidf_pca_2_30'', ([(3, 4), (0, 1)], [''dog'', ''bird''], [7, 7]))] \<and>
   get_reduced_embeddings stub_libs pets ''bogus'' ''pca'' 2 30 True new_service =
     (Inr ([], [], []), new_service)"
proof -
  from reduction_cache_entries_nonempty[where s = new_service and lb = stub_libs and ld = pets
      and mt = "''tfidf''" and meth = "''pca''" and nw = 2 and p = 30 and use_cache = True]
  have "cache_ok (snd (get_reduced_embeddings stub_libs pets ''tfidf'' ''pca'' 2 30 True new_service))"
    by blast
  moreover have "map_of (cache new_service) (get_cache_key stub_libs ''bogus'' ''pca'' 2 30) = None"
    by (simp add: new_service_def)
  with reduction_cache_entries_nonempty[where s = new_service and lb = stub_libs and ld = pets
      and mt = "''bogus''" and meth = "''pca''" and nw = 2 and p = 30 and use_cache = True
      and E = "[]"] pets_bogus
  have "get_reduced_embeddings stub_libs pets ''bogus'' ''pca'' 2 30 True new_service =
     (Inr ([], [], []), new_service)"
    by blast
  ultimately show ?thesis
    by (simp add: pets_reduced_pca)
qed

section \<open>Cache keys\<close>

subsection \<open>Decimal formatting is injective\<close>

lemma of_char_digit_char: "d < 10 \<Longrightarrow> (of_char (digit_char d) :: nat) = 48 + d"
  by (simp add: digit_char_def)

lemma read_nat_snoc: "read_nat (s @ [c]) = 10 * read_nat s + (of_char c - 48)"
  by (simp add: read_nat_def)

lemma read_show_nat: "read_nat (show_nat n) = n"
proof (induction n rule: show_nat.induct)
  case (1 n)
  show ?case
  proof (cases "n < 10")
    case True
    then show ?thesis
      by (subst show_nat.simps) (simp add: read_nat_def of_char_digit_char)
  next
    case False
    with 1 show ?thesis
      by (subst show_nat.simps) (simp add: read_nat_snoc of_char_digit_char)
  qed
qed

lemma show_nat_inj: "show_nat m = show_nat n \<Longrightarrow> m = n"
  by (metis read_show_nat)

lemma digit_char_neq:
  assumes "d < 10"
  shows "digit_char d \<noteq> CHR ''_''" and "digit_char d \<noteq> CHR ''-''"
proof -
  show "digit_char d \<noteq> CHR ''_''"
  proof
    assume "digit_char d = CHR ''_''"
    then have "(of_char (digit_char d) :: nat) = of_char CHR ''_''" by simp
    with assms show False by (simp add: of_char_digit_char)
  qed
  show "digit_char d \<noteq> CHR ''-''"
  proof
    assume "digit_char d = CHR ''-''"
    then have "(of_char (digit_char d) :: nat) = of_char CHR ''-''" by simp
    with assms show False by (simp add: of_char_digit_char)
  qed
qed

lemma show_nat_chars: "c \<in> set (show_nat n) \<Longrightarrow> c \<noteq> CHR ''_'' \<and> c \<noteq> CHR ''-''"
proof (induction n rule: show_nat.induct)
  case (1 n)
  show ?case
  proof (cases "n < 10")
    case True
    with "1.prems" have "c = digit_char n"
      by (subst (asm) show_nat.simps) simp
    with digit_char_neq[OF True] show ?thesis by simp
  next
    case False
    with "1.prems" have "c = digit_char (n mod 10) \<or> c \<in> set (show_nat (n div 10))"
      by (subst (asm) show_nat.simps) simp
    then show ?thesis
    proof
      have "n mod 10 < 10" by simp
      from digit_char_neq[OF this] show ?thesis if "c = digit_char (n mod 10)"
        using that by simp
    next
      assume "c \<in> set (show_nat (n div 10))"
      with "1.IH"[OF False] show ?thesis by simp
    qed
  qed
qed

lemma show_nat_nonempty: "show_nat n \<noteq> []"
  by (subst show_nat.simps) simp

lemma show_int_inj: "show_int i = show_int j \<Longrightarrow> i = j"
proof -
  assume eq: "show_int i = show_int j"
  have hd_nat: "hd (show_nat n) \<noteq> CHR ''-''" for n
    using show_nat_chars[of "hd (show_nat n)" n] show_nat_nonempty[of n] by simp
  show ?thesis
  proof (cases "i < 0"; cases "j < 0")
    assume "i < 0" "j < 0"
    with eq have "show_nat (nat (- i)) = show_nat (nat (- j))"
      by (simp add: show_int_def)
    then have "nat (- i) = nat (- j)" by (rule show_nat_inj)
    with \<open>i < 0\<close> \<open>j < 0\<close> show ?thesis by simp
  next
    assume "i < 0" "\<not> j < 0"
    with eq have "CHR ''-'' # show_nat (nat (- i)) = show_nat (nat j)"
      by (simp add: show_int_def)
    then have "hd (show_nat (nat j)) = CHR ''-''" by (metis list.sel(1))
    with hd_nat show ?thesis by blast
  next
    assume "\<not> i < 0" "j < 0"
    with eq have "show_nat (nat i) = CHR ''-'' # show_nat (nat (- j))"
      by (simp add: show_int_def)
    then have "hd (show_nat (nat i)) = CHR ''-''" by (metis list.sel(1))
    with hd_nat show ?thesis by blast
  next
    assume "\<not> i < 0" "\<not> j < 0"
    with eq have "show_nat (nat i) = show_nat (nat j)"
      by (simp add: show_int_def)
    then have "nat i = nat j" by (rule show_nat_inj)
    with \<open>\<not> i < 0\<close> \<open>\<not> j < 0\<close> show ?thesis by simp
  qed
qed

lemma show_int_no_underscore: "CHR ''_'' \<notin> set (show_int i)"
  using show_nat_chars[of "CHR ''_''"] by (auto simp: show_int_def)

lemma split_at_separator:
  assumes "xs @ c # ys = xs' @ c # ys'" "c \<notin> set xs" "c \<notin> set xs'"
  shows "xs = xs' \<and> ys = ys'"
  using assms
proof (induction xs arbitrary: xs')
  case Nil
  then show ?case by (cases xs') auto
next
  case (Cons x xs)
  then show ?case by (cases xs') auto
qed

lemma key_suffix_inj:
  assumes "show_int n @ ''_'' @ show_int p = show_int n' @ ''_'' @ show_int p'"
  shows "n = n' \<and> p = p'"
proof -
  from assms have "show_int n @ CHR ''_'' # show_int p = show_int n' @ CHR ''_'' # show_int p'"
    by simp
  from split_at_separator[OF this show_int_no_underscore show_int_no_underscore]
  show ?thesis by (auto dest: show_int_inj)
qed

lemma key_str_inj:
  assumes v: "valid_request mt meth" "valid_request mt' meth'"
    and eq: "key_str mt meth nw p = key_str mt' meth' nw' p'"
  shows "mt = mt' \<and> meth = meth' \<and> nw = nw' \<and> p = p'"
proof -
  from v have "(mt = ''tfidf'' \<or> mt = ''word2vec_cbow'' \<or> mt = ''word2vec_skipgram'')"
    "(mt' = ''tfidf'' \<or> mt' = ''word2vec_cbow'' \<or> mt' = ''word2vec_skipgram'')"
    "meth = ''pca'' \<or> meth = ''tsne''" "meth' = ''pca'' \<or> meth' = ''tsne''"
    by (simp_all add: valid_request_def MODEL_TYPES_def)
  with eq have "mt = mt' \<and> meth = meth' \<and>
      show_int nw @ ''_'' @ show_int p = show_int nw' @ ''_'' @ show_int p'"
    unfolding key_str_def by (elim disjE) simp_all
  with key_suffix_inj show ?thesis by blast
qed


subsection \<open>Repeated and distinct requests\<close>

lemma get_reduced_embeddings_other_key:
  assumes "k \<noteq> get_cache_key lb mt meth nw p"
  shows "map_of (cache (snd (get_reduced_embeddings lb ld mt meth nw p use_cache s))) k =
         map_of (cache s) k"
proof (cases rule: get_reduced_embeddings_cases[of use_cache s lb mt meth nw p ld])
  case (computed E ws reduced sr)
  with assms show ?thesis
    by (simp add: update_conv')
qed simp_all

text \<open>
  Claim C5. With caching enabled, when a full-visualization request returns a tuple, the
  same request made again returns exactly that tuple and leaves the service, its
  projection log included, as it was: nothing is recomputed. A tuple with words is the
  entry stored under the request's key. Two different requests of the service's domain
  (one of the three model types, method \<open>pca\<close> or \<open>tsne\<close>) have different key strings;
  when the digests of these two strings differ, the requests have different cache keys,
  serving the one leaves the entry of the other as it was, and the other is still served
  its own tuple afterwards.
\<close>

theorem repeated_request_served_from_cache:
  "(get_reduced_embeddings lb ld mt meth nw p True s = (Inr r, sr) \<longrightarrow>
      get_reduced_embeddings lb ld mt meth nw p True sr = (Inr r, sr) \<and>
      (fst (snd r) \<noteq> [] \<longrightarrow> map_of (cache sr) (get_cache_key lb mt meth nw p) = Some r)) \<and>
   (valid_request mt meth \<and> valid_request mt' meth' \<and>
    (mt, meth, nw, p) \<noteq> (mt', meth', nw', p') \<longrightarrow>
      key_str mt meth nw p \<noteq> key_str mt' meth' nw' p' \<and>
      (md5_hexdigest lb (key_str mt meth nw p) \<noteq> md5_hexdigest lb (key_str mt' meth' nw' p') \<longrightarrow>
         get_cache_key lb mt meth nw p \<noteq> get_cache_key lb mt' meth' nw' p' \<and>
         map_of (cache (snd (get_reduced_embeddings lb ld mt' meth' nw' p' use_cache s')))
             (get_cache_key lb mt meth nw p) =
           map_of (cache s') (get_cache_key lb mt meth nw p) \<and>
         (get_reduced_embeddings lb ld mt meth nw p True s = (Inr r, sr) \<and> fst (snd r) \<noteq> [] \<longrightarrow>
            get_reduced_embeddings lb ld mt meth nw p True
                (snd (get_reduced_embeddings lb ld mt' meth' nw' p' use_cache sr)) =
              (Inr r, snd (get_reduced_embeddings lb ld mt' meth' nw' p' use_cache sr)))))"
proof -
  have again: "get_reduced_embeddings lb ld mt meth nw p True sr = (Inr r, sr) \<and>
      (fst (snd r) \<noteq> [] \<longrightarrow> map_of (cache sr) (get_cache_key lb mt meth nw p) = Some r)"
    if first: "get_reduced_embeddings lb ld mt meth nw p True s = (Inr r, sr)"
  proof (cases rule: get_reduced_embeddings_cases[of True s lb mt meth nw p ld])
    case (hit r')
    with first show ?thesis by simp
  next
    case (failed e)
    with first show ?thesis by simp
  next
    case (empty E)
    with first show ?thesis by auto
  next
    case (raised E ws e s')
    with first show ?thesis by simp
  next
    case (computed E ws reduced s')
    with first have r: "r = (reduced, ws, map (dict_get0 (get_word_frequencies ld)) ws)"
      and sr: "sr = s'\<lparr>cache := AList.update (get_cache_key lb mt meth nw p) r (cache s')\<rparr>"
      by auto
    from sr have stored: "map_of (cache sr) (get_cache_key lb mt meth nw p) = Some r"
      by (simp add: update_conv')
    from get_reduced_embeddings_hit[OF stored] stored show ?thesis by simp
  qed
  have distinct_keys: "key_str mt meth nw p \<noteq> key_str mt' meth' nw' p'"
    if "valid_request mt meth" "valid_request mt' meth'"
      "(mt, meth, nw, p) \<noteq> (mt', meth', nw', p')"
    using key_str_inj[OF that(1,2)] that(3) by blast
  have apart: "get_cache_key lb mt meth nw p \<noteq> get_cache_key lb mt' meth' nw' p'"
    if "md5_hexdigest lb (key_str mt meth nw p) \<noteq> md5_hexdigest lb (key_str mt' meth' nw' p')"
    using that by (simp add: get_cache_key_def)
  have untouched: "map_of (cache (snd (get_reduced_embeddings lb ld mt' meth' nw' p' use_cache t)))
        (get_cache_key lb mt meth nw p) = map_of (cache t) (get_cache_key lb mt meth nw p)"
    if "md5_hexdigest lb (key_str mt meth nw p) \<noteq> md5_hexdigest lb (key_str mt' meth' nw' p')"
    for t
    by (rule get_reduced_embeddings_other_key[OF apart[OF that]])
  have kept: "get_reduced_embeddings lb ld mt meth nw p True
        (snd (get_reduced_embeddings lb ld mt' meth' nw' p' use_cache sr)) =
      (Inr r, snd (get_reduced_embeddings lb ld mt' meth' nw' p' use_cache sr))"
    if d: "md5_hexdigest lb (key_str mt meth nw p) \<noteq> md5_hexdigest lb (key_str mt' meth' nw' p')"
      and first: "get_reduced_embeddings lb ld mt meth nw p True s = (Inr r, sr)"
      and words: "fst (snd r) \<noteq> []"
  proof -
    from again[OF first] words
    have "map_of (cache sr) (get_cache_key lb mt meth nw p) = Some r"
      by simp
    with untouched[OF d, of sr]
    have "map_of (cache (snd (get_reduced_embeddings lb ld mt' meth' nw' p' use_cache sr)))
        (get_cache_key lb mt meth nw p) = Some r"
      by simp
    then show ?thesis
      by (rule get_reduced_embeddings_hit)
  qed
  from again distinct_keys apart untouched[of s'] kept show ?thesis
    by blast
qed

subsection \<open>Two requests under a digest of eight characters\<close>

lemma short_digest:
  "md5_hexdigest short_digest_libs = take 8"
  "PCA_fit_transform short_digest_libs = (\<lambda>E. Inr (map first_two E))"
  by (simp_all add: short_digest_libs_def stub_libs_def)

lemma key_tfidf_tsne_2_30: "key_str ''tfidf'' ''tsne'' 2 30 = ''tfidf_tsne_2_30''"
  by code_simp

lemma key_tfidf_pca_2_31: "key_str ''tfidf'' ''pca'' 2 31 = ''tfidf_pca_2_31''"
  by code_simp

lemma short_reduced_pca:
  "get_reduced_embeddings short_digest_libs pets ''tfidf'' ''pca'' 2 30 True new_service =
     (Inr ([(3, 4), (0, 1)], [''dog'', ''bird''], [7, 7]),
      \<lparr>cache = [(''tfidf_pc'', ([(3, 4), (0, 1)], [''dog'', ''bird''], [7, 7]))],
       projection_log = [PCA_call [[3, 4], [0, 1]]]\<rparr>)"
  by (simp add: get_reduced_embeddings_def get_cache_key_def key_tfidf_pca_2_30 pets_top2
      new_service_def short_digest reduce_pca_def first_two_def dict_get0_def pets_frequencies
      Let_def)

text \<open>
  Outside the service's domain the key string does not tell requests apart: a model type
  may contain the separator.
\<close>

lemma key_str_separator:
  "key_str ''word2vec'' ''cbow_pca'' 2 30 = key_str ''word2vec_cbow'' ''pca'' 2 30"
  by code_simp

text \<open>
  The claim on the four-word model, with the digest of eight characters. This digest
  sends the keys of the PCA requests for perplexity 30 and 31 to the same value, and
  those of the PCA and t-SNE requests for perplexity 30 to different ones. The PCA
  request made again on the service that served it returns the same tuple and the same
  service; it still does after the t-SNE request was served in between.
\<close>

theorem repeated_request_served_from_cache_witness:
  "md5_hexdigest short_digest_libs (key_str ''tfidf'' ''pca'' 2 30) =
     md5_hexdigest short_digest_libs (key_str ''tfidf'' ''pca'' 2 31) \<and>
   get_reduced_embeddings short_digest_libs pets ''tfidf'' ''pca'' 2 30 True
     \<lparr>cache = [(''tfidf_pc'', ([(3, 4), (0, 1)], [''dog'', ''bird''], [7, 7]))],
      projection_log = [PCA_call [[3, 4], [0, 1]]]\<rparr> =
     (Inr ([(3, 4), (0, 1)], [''dog'', ''bird''], [7, 7]),
      \<lparr>cache = [(''tfidf_pc'', ([(3, 4), (0, 1)], [''dog'', ''bird''], [7, 7]))],
       projection_log = [PCA_call [[3, 4], [0, 1]]]\<rparr>) \<and>
   key_str ''tfidf'' ''pca'' 2 30 \<noteq> key_str ''tfidf'' ''tsne'' 2 30 \<and>
   get_cache_key short_digest_libs ''tfidf'' ''pca'' 2 30 \<noteq>
     get_cache_key short_digest_libs ''tfidf'' ''tsne'' 2 30 \<and>
   get_reduced_embeddings short_digest_libs pets ''tfidf'' ''pca'' 2 30 True
     (snd (get_reduced_embeddings short_digest_libs pets ''tfidf'' ''tsne'' 2 30 True
        \<lparr>cache = [(''tfidf_pc'', ([(3, 4), (0, 1)], [''dog'', ''bird''], [7, 7]))],
         projection_log = [PCA_call [[3, 4], [0, 1]]]\<rparr>)) =
     (Inr ([(3, 4), (0, 1)], [''dog'', ''bird''], [7, 7]),
      snd (get_reduced_embeddings short_digest_libs pets ''tfidf'' ''tsne'' 2 30 True
        \<lparr>cache = [(''tfidf_pc'', ([(3, 4), (0, 1)], [''dog'', ''bird''], [7, 7]))],
         projection_log = [PCA_call [[3, 4], [0, 1]]]\<rparr>))"
proof -
  have v: "valid_request ''tfidf'' ''pca'' \<and> valid_request ''tfidf'' ''tsne'' \<and>
      (''tfidf'', ''pca'', 2::int, 30::int) \<noteq> (''tfidf'', ''tsne'', 2, 30)"
    by (simp add: valid_request_def MODEL_TYPES_def)
  have d: "md5_hexdigest short_digest_libs (key_str ''tfidf'' ''pca'' 2 30) \<noteq>
      md5_hexdigest short_digest_libs (key_str ''tfidf'' ''tsne'' 2 30)"
    by (simp add: short_digest key_tfidf_pca_2_30 key_tfidf_tsne_2_30)
  have c: "md5_hexdigest short_digest_libs (key_str ''tfidf'' ''pca'' 2 30) =
      md5_hexdigest short_digest_libs (key_str ''tfidf'' ''pca'' 2 31)"
    by (simp add: short_digest key_tfidf_pca_2_30 key_tfidf_pca_2_31)
  have w: "fst (snd ([(3, 4), (0, 1)], [''dog'', ''bird''], [7, 7])) \<noteq> []"
    by simp
  from repeated_request_served_from_cache[where lb = short_digest_libs and ld = pets
      and mt = "''tfidf''" and meth = "''pca''" and nw = 2 and p = 30 and s = new_service
      and mt' = "''tfidf''" and meth' = "''tsne''" and nw' = 2 and p' = 30
      and use_cache = True
      and r = "([(3, 4), (0, 1)], [''dog'', ''bird''], [7, 7])"
      and sr = "\<lparr>cache = [(''tfidf_pc'', ([(3, 4), (0, 1)], [''dog'', ''bird''], [7, 7]))],
                 projection_log = [PCA_call [[3, 4], [0, 1]]]\<rparr>"]
    short_reduced_pca v d c w
  show ?thesis by blast
qed

section \<open>Word selection for the full visualization\<close>

lemma insort_key_map:
  "insort_key h (f x) (map f ys) = map f (insort_key (\<lambda>a. h (f a)) x ys)"
  by (induction ys) simp_all

lemma sort_key_map: "sort_key h (map f ys) = map f (sort_key (\<lambda>a. h (f a)) ys)"
  by (induction ys) (simp_all add: insort_key_map)

lemma top_words_of_eq:
  "0 \<le> n \<Longrightarrow> top_words_of fr keys n = take (nat n) (sort_key (\<lambda>w. - dict_get0 fr w) keys)"
  by (simp add: top_words_of_def slice_to_def sort_by_count_desc_def sort_key_map take_map o_def)

lemma sorted_desc_sort_key:
  fixes g :: "'a \<Rightarrow> int"
  shows "sorted_wrt (\<lambda>a b. g b \<le> g a) (sort_key (\<lambda>w. - g w) keys)"
proof -
  have "sorted (map (\<lambda>w. - g w) (sort_key (\<lambda>w. - g w) keys))"
    by (rule sorted_sort_key)
  then show ?thesis
    by (simp add: sorted_wrt_map)
qed

lemma top_words_of_props:
  assumes n: "0 \<le> n"
  shows "length (top_words_of fr keys n) = min (nat n) (length keys)"
    and "set (top_words_of fr keys n) \<subseteq> set keys"
    and "sorted_wrt (\<ge>) (map (dict_get0 fr) (top_words_of fr keys n))"
    and "w \<in> set (top_words_of fr keys n) \<Longrightarrow> v \<in> set keys \<Longrightarrow> v \<notin> set (top_words_of fr keys n)
         \<Longrightarrow> dict_get0 fr v \<le> dict_get0 fr w"
proof -
  let ?ranked = "sort_key (\<lambda>w. - dict_get0 fr w) keys"
  have eq: "top_words_of fr keys n = take (nat n) ?ranked"
    by (rule top_words_of_eq[OF n])
  have desc: "sorted_wrt (\<lambda>a b. dict_get0 fr b \<le> dict_get0 fr a) ?ranked"
    by (rule sorted_desc_sort_key)
  show "length (top_words_of fr keys n) = min (nat n) (length keys)"
    by (simp add: eq min.commute)
  show "set (top_words_of fr keys n) \<subseteq> set keys"
    using set_take_subset[of "nat n" ?ranked] by (simp add: eq)
  from desc have "sorted_wrt (\<lambda>a b. dict_get0 fr b \<le> dict_get0 fr a) (take (nat n) ?ranked)"
    by (rule sorted_wrt_take)
  then show "sorted_wrt (\<ge>) (map (dict_get0 fr) (top_words_of fr keys n))"
    by (simp add: eq sorted_wrt_map)
  show "dict_get0 fr v \<le> dict_get0 fr w"
    if w: "w \<in> set (top_words_of fr keys n)" and v: "v \<in> set keys"
      "v \<notin> set (top_words_of fr keys n)"
  proof -
    from v have "v \<in> set (take (nat n) ?ranked @ drop (nat n) ?ranked)"
      by simp
    with v(2) have vd: "v \<in> set (drop (nat n) ?ranked)"
      by (simp add: eq del: append_take_drop_id)
    from desc have "sorted_wrt (\<lambda>a b. dict_get0 fr b \<le> dict_get0 fr a)
        (take (nat n) ?ranked @ drop (nat n) ?ranked)"
      by simp
    then have "\<forall>a \<in> set (take (nat n) ?ranked). \<forall>b \<in> set (drop (nat n) ?ranked).
        dict_get0 fr b \<le> dict_get0 fr a"
      by (simp only: sorted_wrt_append) simp
    with w vd show ?thesis
      by (simp add: eq)
  qed
qed

lemma lookup_all_Inr:
  "lookup_all d ws = Inr vs \<Longrightarrow>
   length vs = length ws \<and> (\<forall>i < length ws. map_of d (ws ! i) = Some (vs ! i))"
proof (induction ws arbitrary: vs)
  case Nil
  then show ?case by simp
next
  case (Cons w ws)
  then obtain v vs' where v: "map_of d w = Some v" and rest: "lookup_all d ws = Inr vs'"
    and vs: "vs = v # vs'"
    by (auto split: option.splits sum.splits)
  from Cons.IH[OF rest] v vs show ?case
    by (auto simp: nth_Cons split: nat.splits)
qed

lemma gather_rows_Inr:
  "gather_rows E idxs = Inr rows \<Longrightarrow>
   length rows = length idxs \<and> (\<forall>i < length idxs. idxs ! i < length E \<and> rows ! i = E ! (idxs ! i))"
proof (induction idxs arbitrary: rows)
  case Nil
  then show ?case by simp
next
  case (Cons j idxs)
  then obtain rows' where j: "j < length E" and rest: "gather_rows E idxs = Inr rows'"
    and rows: "rows = E ! j # rows'"
    by (auto split: if_splits sum.splits)
  from Cons.IH[OF rest] j rows show ?case
    by (auto simp: nth_Cons split: nat.splits)
qed

lemma get_all_embeddings_Inr:
  assumes run: "get_all_embeddings ld mt n = Inr (M, ws)"
  shows "ws = top_words_of (get_word_frequencies ld) (vocabulary_words ld mt) n \<and>
         length M = length ws \<and>
         (\<forall>i < length ws. embedding_row ld mt (ws ! i) = Some (M ! i))"
proof -
  consider (tfidf) "mt = ''tfidf''" | (cbow) "mt = ''word2vec_cbow''"
    | (skipgram) "mt = ''word2vec_skipgram''"
    | (other) "mt \<noteq> ''tfidf''" "mt \<noteq> ''word2vec_cbow''" "mt \<noteq> ''word2vec_skipgram''"
    by blast
  then show ?thesis
  proof cases
    case tfidf
    with run obtain m where m: "tfidf_artifacts ld = Some m"
      by (auto simp: get_all_embeddings_def get_tfidf_vocab_def split: option.splits)
    let ?tw = "top_words_of (get_word_frequencies ld) (map fst (tfidf_vocab m)) n"
    from run tfidf m obtain idxs where idxs: "lookup_all (tfidf_vocab m) ?tw = Inr idxs"
      and rows: "gather_rows (tfidf_embeddings m) idxs = Inr M" and ws: "ws = ?tw"
      by (auto simp: get_all_embeddings_def get_tfidf_vocab_def get_tfidf_embeddings_def Let_def
          split: sum.splits)
    from lookup_all_Inr[OF idxs] gather_rows_Inr[OF rows] ws tfidf m show ?thesis
      by (simp add: vocabulary_words_def embedding_row_def)
  next
    case cbow
    with run obtain m where m: "cbow_artifact ld = Some m"
      by (auto simp: get_all_embeddings_def get_word2vec_cbow_def split: option.splits)
    let ?tw = "top_words_of (get_word_frequencies ld) (map fst (wv_vectors m)) n"
    from run cbow m have rows: "lookup_all (wv_vectors m) ?tw = Inr M" and ws: "ws = ?tw"
      by (auto simp: get_all_embeddings_def get_word2vec_cbow_def Let_def split: sum.splits)
    from lookup_all_Inr[OF rows] ws cbow m show ?thesis
      by (simp add: vocabulary_words_def embedding_row_def)
  next
    case skipgram
    with run obtain m where m: "skipgram_artifact ld = Some m"
      by (auto simp: get_all_embeddings_def get_word2vec_skipgram_def split: option.splits)
    let ?tw = "top_words_of (get_word_frequencies ld) (map fst (wv_vectors m)) n"
    from run skipgram m have rows: "lookup_all (wv_vectors m) ?tw = Inr M" and ws: "ws = ?tw"
      by (auto simp: get_all_embeddings_def get_word2vec_skipgram_def Let_def split: sum.splits)
    from lookup_all_Inr[OF rows] ws skipgram m show ?thesis
      by (simp add: vocabulary_words_def embedding_row_def)
  next
    case other
    with run show ?thesis
      by (simp add: get_all_embeddings_def vocabulary_words_def top_words_of_def
          sort_by_count_desc_def slice_to_def)
  qed
qed

lemma reduction_source:
  assumes "(if meth = ''pca'' then reduce_pca lb M s
            else if meth = ''tsne'' then reduce_tsne lb M p s
            else (Inl e0, s)) = (Inr reduced, s1)"
  shows "PCA_fit_transform lb M = Inr reduced \<or> (\<exists>q. TSNE_fit_transform lb q M = Inr reduced)"
  using assms
  by (auto simp: reduce_pca_def reduce_tsne_def Let_def split: if_splits sum.splits)

text \<open>
  Claim C8. A full-visualization request for a non-negative \<open>num_words\<close> that computes its
  result (a cache miss) returns as its word list the first \<open>num_words\<close> words of the
  model's vocabulary in descending order of frequency, a word missing from the frequency
  table counting 0: the list has \<open>min num_words |vocabulary|\<close> words of the vocabulary,
  their frequencies do not increase along the list, and no word left out is more frequent
  than a word selected. The frequency list holds the frequencies of the words in the same
  order. The matrix handed to the projection holds the embedding rows of the words in
  that order, and the coordinates are what the projection returned for that matrix.
\<close>

theorem full_visualization_selects_top_frequent:
  assumes n: "0 \<le> num_words"
    and miss: "\<not> use_cache \<or> map_of (cache s) (get_cache_key lb mt meth num_words p) = None"
    and run: "get_reduced_embeddings lb ld mt meth num_words p use_cache s =
                (Inr (coords, words, freqs), s1)"
  shows "words = take (nat num_words)
                   (sort_key (\<lambda>w. - word_frequency ld w) (vocabulary_words ld mt)) \<and>
         length words = min (nat num_words) (length (vocabulary_words ld mt)) \<and>
         set words \<subseteq> set (vocabulary_words ld mt) \<and>
         sorted_wrt (\<ge>) (map (word_frequency ld) words) \<and>
         (\<forall>w \<in> set words. \<forall>v \<in> set (vocabulary_words ld mt) - set words.
            word_frequency ld v \<le> word_frequency ld w) \<and>
         freqs = map (word_frequency ld) words \<and>
         (words \<noteq> [] \<longrightarrow>
            (\<exists>M. length M = length words \<and>
                 (\<forall>i < length words. embedding_row ld mt (words ! i) = Some (M ! i)) \<and>
                 (PCA_fit_transform lb M = Inr coords \<or>
                  (\<exists>q. TSNE_fit_transform lb q M = Inr coords))))"
proof -
  let ?fr = "get_word_frequencies ld"
  let ?keys = "vocabulary_words ld mt"
  have wf: "word_frequency ld = dict_get0 ?fr"
    by (rule ext) (simp add: word_frequency_def)
  have selection: "ws = take (nat num_words) (sort_key (\<lambda>w. - word_frequency ld w) ?keys) \<and>
         length ws = min (nat num_words) (length ?keys) \<and>
         set ws \<subseteq> set ?keys \<and>
         sorted_wrt (\<ge>) (map (word_frequency ld) ws) \<and>
         (\<forall>w \<in> set ws. \<forall>v \<in> set ?keys - set ws. word_frequency ld v \<le> word_frequency ld w)"
    if "ws = top_words_of ?fr ?keys num_words" for ws
    using top_words_of_props[OF n, where fr = ?fr and keys = ?keys]
      top_words_of_eq[OF n, where fr = ?fr and keys = ?keys] that
    by (auto simp: wf)
  show ?thesis
  proof (cases "get_all_embeddings ld mt num_words")
    case (Inl e)
    from miss have "(if use_cache then map_of (cache s) (get_cache_key lb mt meth num_words p)
        else None) = None"
      by auto
    with Inl run show ?thesis
      by (simp add: get_reduced_embeddings_def Let_def)
  next
    case (Inr pair)
    obtain M ws where pair: "pair = (M, ws)" by (cases pair)
    with Inr have emb: "get_all_embeddings ld mt num_words = Inr (M, ws)" by simp
    note shape = get_all_embeddings_Inr[OF emb]
    show ?thesis
    proof (cases "ws = []")
      case True
      with get_reduced_embeddings_no_words[OF miss] emb run
      have "words = ws" "freqs = []" by simp_all
      with True selection[of ws] shape show ?thesis by simp
    next
      case False
      let ?go = "if meth = ''pca'' then reduce_pca lb M s
            else if meth = ''tsne'' then reduce_tsne lb M p s
            else (Inl (ValueError (''Unknown reduction method: '' @ meth)), s)"
      obtain out s' where go: "?go = (out, s')" by (cases ?go)
      from get_reduced_embeddings_miss[OF miss emb False] run go
      obtain reduced where out: "out = Inr reduced" and res: "coords = reduced" "words = ws"
        "freqs = map (dict_get0 ?fr) ws"
        by (cases out) auto
      from go out have "?go = (Inr reduced, s')" by simp
      from reduction_source[OF this] res(1)
      have src: "PCA_fit_transform lb M = Inr coords \<or> (\<exists>q. TSNE_fit_transform lb q M = Inr coords)"
        by simp
      from shape have rows: "length M = length words \<and>
          (\<forall>i < length words. embedding_row ld mt (words ! i) = Some (M ! i))"
        unfolding res(2) by blast
      from selection[of ws] shape have sel: "words = take (nat num_words)
                   (sort_key (\<lambda>w. - word_frequency ld w) ?keys) \<and>
         length words = min (nat num_words) (length ?keys) \<and>
         set words \<subseteq> set ?keys \<and>
         sorted_wrt (\<ge>) (map (word_frequency ld) words) \<and>
         (\<forall>w \<in> set words. \<forall>v \<in> set ?keys - set words.
            word_frequency ld v \<le> word_frequency ld w)"
        unfolding res(2) by blast
      from res(2,3) have fq: "freqs = map (word_frequency ld) words"
        by (simp add: wf)
      from sel fq rows src show ?thesis by blast
    qed
  qed
qed

subsection \<open>The selection on the four-word model\<close>

lemma pets_vocabulary: "vocabulary_words pets ''tfidf'' = [''cat'', ''dog'', ''fish'', ''bird'']"
  by (simp add: vocabulary_words_def pets_def pets_model_def)

lemma pets_word_frequency:
  "word_frequency pets ''cat'' = 5" "word_frequency pets ''dog'' = 7"
  "word_frequency pets ''fish'' = 0" "word_frequency pets ''bird'' = 7"
  by (simp_all add: word_frequency_def pets_frequencies dict_get0_def)

text \<open>
  The claim for the two most frequent words of the four-word model: \<open>dog\<close> and \<open>bird\<close>
  (both 7), ahead of \<open>cat\<close> (5) and \<open>fish\<close> (unknown, 0).
\<close>

theorem full_visualization_selects_top_frequent_witness:
  "get_reduced_embeddings stub_libs pets ''tfidf'' ''pca'' 2 30 True new_service =
     (Inr ([(3, 4), (0, 1)], [''dog'', ''bird''], [7, 7]),
      \<lparr>cache = [(''tfidf_pca_2_30'', ([(3, 4), (0, 1)], [''dog'', ''bird''], [7, 7]))],
       projection_log = [PCA_call [[3, 4], [0, 1]]]\<rparr>) \<and>
   [''dog'', ''bird''] = take (nat 2)
      (sort_key (\<lambda>w. - word_frequency pets w) (vocabulary_words pets ''tfidf'')) \<and>
   sorted_wrt (\<ge>) (map (word_frequency pets) [''dog'', ''bird'']) \<and>
   [7, 7] = map (word_frequency pets) [''dog'', ''bird''] \<and>
   word_frequency pets ''cat'' \<le> word_frequency pets ''bird'' \<and>
   (\<exists>M. embedding_row pets ''tfidf'' ''dog'' = Some (M ! 0) \<and>
        embedding_row pets ''tfidf'' ''bird'' = Some (M ! 1) \<and>
        PCA_fit_transform stub_libs M = Inr [(3, 4), (0, 1)])"
proof -
  have n: "(0::int) \<le> 2" by simp
  have miss: "\<not> True \<or> map_of (cache new_service) (get_cache_key stub_libs ''tfidf'' ''pca'' 2 30) = None"
    by (simp add: new_service_def)
  note inst = full_visualization_selects_top_frequent[OF n miss pets_reduced_pca]
  from inst have sel: "[''dog'', ''bird''] = take (nat 2)
      (sort_key (\<lambda>w. - word_frequency pets w) (vocabulary_words pets ''tfidf''))"
    and srt: "sorted_wrt (\<ge>) (map (word_frequency pets) [''dog'', ''bird''])"
    and fq: "[7, 7] = map (word_frequency pets) [''dog'', ''bird'']"
    and top: "\<forall>w \<in> set [''dog'', ''bird'']. \<forall>v \<in> set (vocabulary_words pets ''tfidf'') - set [''dog'', ''bird''].
            word_frequency pets v \<le> word_frequency pets w"
    by blast+
  from top have cat: "word_frequency pets ''cat'' \<le> word_frequency pets ''bird''"
    by (simp add: pets_vocabulary)
  from inst obtain M where M: "\<forall>i < length [''dog'', ''bird''].
        embedding_row pets ''tfidf'' ([''dog'', ''bird''] ! i) = Some (M ! i)"
    and src: "PCA_fit_transform stub_libs M = Inr [(3, 4), (0, 1)] \<or>
       (\<exists>q. TSNE_fit_transform stub_libs q M = Inr [(3, 4), (0, 1)])"
    and len: "length M = length [''dog'', ''bird'']"
    by blast
  from M[rule_format, of 0] M[rule_format, of 1]
  have rows: "embedding_row pets ''tfidf'' ''dog'' = Some (M ! 0)"
    "embedding_row pets ''tfidf'' ''bird'' = Some (M ! 1)"
    by simp_all
  then have M0: "M ! 0 = [3, 4]" and M1: "M ! 1 = [0, 1]"
    by (simp_all add: embedding_row_def pets_def pets_model_def)
  from len obtain a b where "M = [a, b]"
    by (auto simp: length_Suc_conv)
  with M0 M1 have "M = [[3, 4], [0, 1]]" by simp
  then have "PCA_fit_transform stub_libs M = Inr [(3, 4), (0, 1)]"
    by (simp add: stub_libs_def first_two_def)
  with rows sel srt fq cat pets_reduced_pca show ?thesis
    by (intro conjI exI[of _ M]) simp_all
qed

section \<open>The neighbourhood of a word\<close>

lemma found_has_vector:
  assumes "get_similar_words lb ld word mt n = (sw, True, msg)"
  shows "get_word_vector ld word mt \<noteq> None"
proof -
  consider (tfidf) "mt = ''tfidf''" | (cbow) "mt = ''word2vec_cbow''"
    | (skipgram) "mt = ''word2vec_skipgram''"
    | (other) "mt \<noteq> ''tfidf''" "mt \<noteq> ''word2vec_cbow''" "mt \<noteq> ''word2vec_skipgram''"
    by blast
  then show ?thesis
  proof cases
    case tfidf
    with assms have look: "tfidf_lookup lb ld (normalize_word word) n = Inr (sw, True, msg)"
      by (auto simp: get_similar_words_def get_similar_words_tfidf_def split: sum.splits)
    obtain m where m: "tfidf_artifacts ld = Some m"
      using look by (cases "tfidf_artifacts ld")
        (simp_all add: tfidf_lookup_def get_tfidf_vocab_def)
    obtain i where i: "map_of (tfidf_vocab m) (normalize_word word) = Some i"
      using look m by (cases "map_of (tfidf_vocab m) (normalize_word word)")
        (simp_all add: tfidf_lookup_def get_tfidf_vocab_def get_tfidf_embeddings_def
          get_tfidf_idx_to_word_def)
    have "i < length (tfidf_embeddings m)"
      using look m i by (cases "i < length (tfidf_embeddings m)")
        (simp_all add: tfidf_lookup_def get_tfidf_vocab_def get_tfidf_embeddings_def
          get_tfidf_idx_to_word_def)
    with m i show ?thesis
      by (simp add: tfidf get_word_vector_def get_tfidf_vocab_def get_tfidf_embeddings_def)
  next
    case cbow
    with assms
    have look: "word2vec_lookup ld (normalize_word word) ''word2vec_cbow'' n = Inr (sw, True, msg)"
      by (auto simp: get_similar_words_def get_similar_words_word2vec_def split: sum.splits)
    obtain m where m: "cbow_artifact ld = Some m"
      using look by (cases "cbow_artifact ld")
        (simp_all add: word2vec_lookup_def get_word2vec_cbow_def)
    have "map_of (wv_vectors m) (normalize_word word) \<noteq> None"
      using look m by (cases "map_of (wv_vectors m) (normalize_word word)")
        (simp_all add: word2vec_lookup_def get_word2vec_cbow_def)
    with m show ?thesis
      by (simp add: cbow get_word_vector_def get_word2vec_cbow_def)
  next
    case skipgram
    with assms
    have look: "word2vec_lookup ld (normalize_word word) ''word2vec_skipgram'' n = Inr (sw, True, msg)"
      by (auto simp: get_similar_words_def get_similar_words_word2vec_def split: sum.splits)
    obtain m where m: "skipgram_artifact ld = Some m"
      using look by (cases "skipgram_artifact ld")
        (simp_all add: word2vec_lookup_def get_word2vec_skipgram_def)
    have "map_of (wv_vectors m) (normalize_word word) \<noteq> None"
      using look m by (cases "map_of (wv_vectors m) (normalize_word word)")
        (simp_all add: word2vec_lookup_def get_word2vec_skipgram_def)
    with m show ?thesis
      by (simp add: skipgram get_word_vector_def get_word2vec_skipgram_def)
  next
    case other
    with assms show ?thesis
      by (simp add: get_similar_words_def)
  qed
qed

lemma valid_entries_vectors:
  "(v, w, sim) \<in> set (valid_entries ld mt pairs) \<Longrightarrow>
   (w, sim) \<in> set pairs \<and> get_word_vector ld w mt = Some v"
  by (induction pairs) (auto split: option.splits)

lemma collect_similar_words:
  assumes "collect_similar n widx i2w sims idxs [] = Inr results" "(w, sc) \<in> set results"
  shows "\<exists>i. i2w i = Some w"
proof -
  let ?L = "take (nat (n - int (length ([]::(string \<times> real) list)))) (filter (\<lambda>i. i \<noteq> widx) idxs)"
  from collect_similar_Inr[OF assms(1)]
  have r: "results = map (\<lambda>i. (the (i2w i), sims ! i)) ?L"
    and def: "\<forall>i \<in> set ?L. i2w i \<noteq> None"
    by simp_all
  from assms(2) r obtain i where i: "i \<in> set ?L" "w = the (i2w i)"
    by auto
  with def have "i2w i = Some w" by auto
  then show ?thesis ..
qed

lemma tfidf_results_in_vocabulary:
  assumes art: "tfidf_artifacts ld = Some m"
    and res: "get_similar_words_tfidf lb ld word n = (results, found, msg)"
  shows "fst ` set results \<subseteq> fst ` set (tfidf_vocab m)"
proof
  fix w assume "w \<in> fst ` set results"
  then obtain sc where w: "(w, sc) \<in> set results" by auto
  then have ne: "results \<noteq> []" by auto
  obtain i where i: "map_of (tfidf_vocab m) (normalize_word word) = Some i"
    using res art ne by (cases "map_of (tfidf_vocab m) (normalize_word word)")
      (auto simp: get_similar_words_tfidf_def tfidf_lookup_def get_tfidf_vocab_def
        get_tfidf_embeddings_def get_tfidf_idx_to_word_def)
  have rng: "i < length (tfidf_embeddings m)"
    using res art ne i by (cases "i < length (tfidf_embeddings m)")
      (auto simp: get_similar_words_tfidf_def tfidf_lookup_def get_tfidf_vocab_def
        get_tfidf_embeddings_def get_tfidf_idx_to_word_def)
  let ?sims = "cosine_similarity (tfidf_embeddings m ! i) (tfidf_embeddings m)"
  let ?run = "collect_similar n i (idx_to_word_of (tfidf_vocab m)) ?sims (rev (argsort lb ?sims)) []"
  have "?run = Inr results"
    using res art ne i rng by (cases ?run)
      (simp_all add: get_similar_words_tfidf_def tfidf_lookup_def get_tfidf_vocab_def
        get_tfidf_embeddings_def get_tfidf_idx_to_word_def Let_def)
  from collect_similar_words[OF this w] obtain j where "idx_to_word_of (tfidf_vocab m) j = Some w"
    by blast
  then have "(w, j) \<in> set (tfidf_vocab m)" by (rule idx_to_word_of_SomeD)
  then show "w \<in> fst ` set (tfidf_vocab m)" by force
qed

lemma build_points_Inr:
  "build_points lb word reduced i pairs acc = Inr pts \<Longrightarrow>
   map pt_word pts = map pt_word acc @ map fst pairs \<and>
   map pt_is_query pts = map pt_is_query acc @ map (\<lambda>(w, sim). w = normalize_word word) pairs"
proof (induction pairs arbitrary: i acc)
  case Nil
  then show ?case by simp
next
  case (Cons a pairs)
  obtain w sim where a: "a = (w, sim)" by (cases a)
  with Cons.prems have "build_points lb word reduced (Suc i) pairs
      (acc @ [\<lparr>pt_word = w, pt_x = fst (reduced ! i), pt_y = snd (reduced ! i),
               pt_similarity = round4 lb sim, pt_is_query = (w = normalize_word word)\<rparr>]) = Inr pts"
    by (simp split: if_splits)
  from Cons.IH[OF this] a show ?case by simp
qed

lemma neighborhood_words:
  assumes run: "get_word_neighborhood lb ld word mt meth nn p s = (Inr (reduced, words, sims), s1)"
    and ne: "words \<noteq> []"
  shows "\<exists>sw msg. get_similar_words lb ld word mt nn = (sw, True, msg) \<and>
           words = word # map (fst \<circ> snd) (valid_entries ld mt sw) \<and>
           sims = 1 # map (snd \<circ> snd) (valid_entries ld mt sw)"
proof -
  obtain sw iv msg where gs: "get_similar_words lb ld word mt nn = (sw, iv, msg)"
    by (cases "get_similar_words lb ld word mt nn")
  have iv: "iv"
    using run ne gs by (cases iv) (simp_all add: get_word_neighborhood_def)
  let ?valid = "valid_entries ld mt (zip (word # map fst sw) (1 # map snd sw))"
  have long: "\<not> length (map fst ?valid) < 2"
    using run ne gs iv by (cases "length (map fst ?valid) < 2")
      (simp_all add: get_word_neighborhood_def Let_def)
  let ?go = "if meth = ''pca'' then reduce_pca lb (map fst ?valid) s
             else reduce_tsne lb (map fst ?valid)
                    (min p (max 2 (int (length (map fst ?valid)) div 3))) s"
  obtain out s' where go: "?go = (out, s')" by (cases ?go)
  from run gs iv long go have shape: "words = map (fst \<circ> snd) ?valid \<and> sims = map (snd \<circ> snd) ?valid"
    by (cases out) (simp_all add: get_word_neighborhood_def Let_def)
  from gs iv have "get_similar_words lb ld word mt nn = (sw, True, msg)"
    by simp
  from found_has_vector[OF this] obtain v where v: "get_word_vector ld word mt = Some v"
    by auto
  have "?valid = (v, word, 1) # valid_entries ld mt sw"
    by (simp add: v zip_map_fst_snd)
  with shape gs iv show ?thesis by simp
qed

lemma endpoint_points:
  assumes run: "neighborhood_endpoint lb ld mt word meth nn p s = (Inr resp, s1)"
  shows "\<exists>reduced words sims.
           get_word_neighborhood lb ld word mt meth nn p s = (Inr (reduced, words, sims), s1) \<and>
           words \<noteq> [] \<and>
           build_points lb word reduced 0 (zip words sims) [] = Inr (nr_points resp)"
proof -
  from run have mt: "mt \<in> set MODEL_TYPES"
    by (cases "mt \<in> set MODEL_TYPES") (simp_all add: neighborhood_endpoint_def)
  obtain b s' where body: "neighborhood_body lb ld mt word meth nn p s = (b, s')"
    by (cases "neighborhood_body lb ld mt word meth nn p s")
  with run mt have b: "b = Inr resp" and s': "s' = s1"
    by (cases b; simp add: neighborhood_endpoint_def)+
  obtain r t where svc: "get_word_neighborhood lb ld word mt meth nn p s = (r, t)"
    by (cases "get_word_neighborhood lb ld word mt meth nn p s")
  from body b svc obtain triple where r: "r = Inr triple"
    by (cases r) (simp_all add: neighborhood_body_def)
  obtain reduced words sims where triple: "triple = (reduced, words, sims)"
    by (cases triple)
  have ne: "words \<noteq> []"
    using body b svc r triple by (cases "words = []") (simp_all add: neighborhood_body_def)
  obtain pts where pts: "build_points lb word reduced 0 (zip words sims) [] = Inr pts"
    using body b svc r triple ne
    by (cases "build_points lb word reduced 0 (zip words sims) []")
       (simp_all add: neighborhood_body_def)
  from body b s' svc r triple ne pts have "nr_points resp = pts" "t = s1"
    by (auto simp: neighborhood_body_def)
  with svc r triple ne pts show ?thesis by blast
qed

text \<open>
  Claim C9. In a non-empty neighbourhood result the first word is the query string as it
  was passed in, with similarity 1; every following word has a vector in the model, and
  for the TF-IDF model it is a word of the vocabulary (hence normalised when the
  vocabulary's words are). The endpoint compares each word with the normalised query, so
  the \<open>is_query\<close> flag of its first point holds exactly when the query string was
  already lowercase and trimmed.
\<close>

theorem neighborhood_first_entry_is_raw_query:
  "(get_word_neighborhood lb ld word mt meth nn p s = (Inr (reduced, words, sims), s1) \<and>
    words \<noteq> [] \<longrightarrow>
      hd words = word \<and> hd sims = 1 \<and>
      (\<forall>w \<in> set (tl words). get_word_vector ld w mt \<noteq> None) \<and>
      (mt = ''tfidf'' \<longrightarrow>
         (\<forall>w \<in> set (tl words). w \<in> set (vocabulary_words ld mt) \<and>
            ((\<forall>k \<in> set (vocabulary_words ld mt). normalize_word k = k) \<longrightarrow>
               normalize_word w = w)))) \<and>
   (neighborhood_endpoint lb ld mt word meth nn p s = (Inr resp, s1) \<longrightarrow>
      nr_points resp \<noteq> [] \<and>
      pt_word (hd (nr_points resp)) = word \<and>
      (pt_is_query (hd (nr_points resp)) \<longleftrightarrow> word = normalize_word word))"
proof -
  have service: "hd words = word \<and> hd sims = 1 \<and>
      (\<forall>w \<in> set (tl words). get_word_vector ld w mt \<noteq> None) \<and>
      (mt = ''tfidf'' \<longrightarrow>
         (\<forall>w \<in> set (tl words). w \<in> set (vocabulary_words ld mt) \<and>
            ((\<forall>k \<in> set (vocabulary_words ld mt). normalize_word k = k) \<longrightarrow>
               normalize_word w = w)))"
    if run: "get_word_neighborhood lb ld word mt meth nn p s = (Inr (reduced, words, sims), s1)"
      and ne: "words \<noteq> []"
  proof -
    from neighborhood_words[OF run ne] obtain sw msg where
      gs: "get_similar_words lb ld word mt nn = (sw, True, msg)"
      and words: "words = word # map (fst \<circ> snd) (valid_entries ld mt sw)"
      and sims: "sims = 1 # map (snd \<circ> snd) (valid_entries ld mt sw)"
      by blast
    have rest: "(w, sim) \<in> set sw \<and> get_word_vector ld w mt \<noteq> None"
      if "(v, w, sim) \<in> set (valid_entries ld mt sw)" for v w sim
      using valid_entries_vectors[OF that] by simp
    have vec: "\<forall>w \<in> set (tl words). get_word_vector ld w mt \<noteq> None"
      using rest by (auto simp: words)
    have voc: "w \<in> set (vocabulary_words ld mt)"
      if tfidf: "mt = ''tfidf''" and w: "w \<in> set (tl words)" for w
    proof -
      from w obtain v sim where "(v, w, sim) \<in> set (valid_entries ld mt sw)"
        by (auto simp: words)
      with rest have in_sw: "w \<in> fst ` set sw" by force
      from gs tfidf have res: "get_similar_words_tfidf lb ld word nn = (sw, True, msg)"
        by (simp add: get_similar_words_def)
      obtain m where m: "tfidf_artifacts ld = Some m"
        using res by (cases "tfidf_artifacts ld")
          (simp_all add: get_similar_words_tfidf_def tfidf_lookup_def get_tfidf_vocab_def)
      from tfidf_results_in_vocabulary[OF m res] in_sw m tfidf show ?thesis
        by (auto simp: vocabulary_words_def)
    qed
    from words sims vec voc show ?thesis by auto
  qed
  have endpoint: "nr_points resp \<noteq> [] \<and> pt_word (hd (nr_points resp)) = word \<and>
      (pt_is_query (hd (nr_points resp)) \<longleftrightarrow> word = normalize_word word)"
    if run: "neighborhood_endpoint lb ld mt word meth nn p s = (Inr resp, s1)"
  proof -
    from endpoint_points[OF run] obtain reduced' words' sims' where
      svc: "get_word_neighborhood lb ld word mt meth nn p s = (Inr (reduced', words', sims'), s1)"
      and ne: "words' \<noteq> []"
      and pts: "build_points lb word reduced' 0 (zip words' sims') [] = Inr (nr_points resp)"
      by blast
    from neighborhood_words[OF svc ne] obtain ws ss where
      words: "words' = word # ws" and sims: "sims' = 1 # ss"
      by blast
    from build_points_Inr[OF pts] words sims
    have "map pt_word (nr_points resp) = word # map fst (zip ws ss)"
      "map pt_is_query (nr_points resp) =
         (word = normalize_word word) # map (\<lambda>(w, sim). w = normalize_word word) (zip ws ss)"
      by simp_all
    then show ?thesis
      by (cases "nr_points resp") auto
  qed
  from service endpoint show ?thesis by blast
qed

subsection \<open>The endpoint on the four-word model\<close>

lemma normalize_pets:
  "normalize_word ''cat'' = ''cat''" "normalize_word ''fish'' = ''fish''"
  "normalize_word ''dog'' = ''dog''" "normalize_word ''bird'' = ''bird''"
  by code_simp+

lemma pets_vectors:
  "get_word_vector pets ''Cat '' ''tfidf'' = Some [1, 0]"
  "get_word_vector pets ''cat'' ''tfidf'' = Some [1, 0]"
  "get_word_vector pets ''fish'' ''tfidf'' = Some [3, -4]"
  "get_word_vector pets ''dog'' ''tfidf'' = Some [3, 4]"
  "get_word_vector pets ''bird'' ''tfidf'' = Some [0, 1]"
  by (simp_all add: get_word_vector_def pets_vocab pets_embeddings normalize_Cat normalize_pets)

lemma stub_projection:
  "PCA_fit_transform stub_libs = (\<lambda>E. Inr (map first_two E))" "round4 stub_libs = id"
  by (simp_all add: stub_libs_def)

lemma pets_neighbours_5:
  "get_similar_words stub_libs pets ''Cat '' ''tfidf'' 5 =
     ([(''fish'', 3/5), (''dog'', 3/5), (''bird'', 0)], True, None)"
  "get_similar_words stub_libs pets ''cat'' ''tfidf'' 5 =
     ([(''fish'', 3/5), (''dog'', 3/5), (''bird'', 0)], True, None)"
  by (simp_all add: get_similar_words_def get_similar_words_tfidf_def tfidf_lookup_def
      pets_vocab pets_embeddings get_tfidf_idx_to_word_def pets_def[THEN arg_cong, of tfidf_artifacts]
      pets_model_def idx_to_word_of_def normalize_Cat normalize_pets pets_similarities pets_argsort)

lemma pets_neighborhood_Cat:
  "neighborhood_endpoint stub_libs pets ''tfidf'' ''Cat '' ''pca'' 5 30 new_service =
     (Inr \<lparr>nr_query_word = ''cat'', nr_model_type = ''tfidf'', nr_reduction_method = ''pca'',
           nr_points =
             [\<lparr>pt_word = ''Cat '', pt_x = 1, pt_y = 0, pt_similarity = 1, pt_is_query = False\<rparr>,
              \<lparr>pt_word = ''fish'', pt_x = 3, pt_y = -4, pt_similarity = 3/5, pt_is_query = False\<rparr>,
              \<lparr>pt_word = ''dog'', pt_x = 3, pt_y = 4, pt_similarity = 3/5, pt_is_query = False\<rparr>,
              \<lparr>pt_word = ''bird'', pt_x = 0, pt_y = 1, pt_similarity = 0, pt_is_query = False\<rparr>]\<rparr>,
      \<lparr>cache = [], projection_log = [PCA_call [[1, 0], [3, -4], [3, 4], [0, 1]]]\<rparr>)"
  by (simp add: neighborhood_endpoint_def neighborhood_body_def get_word_neighborhood_def
      MODEL_TYPES_def pets_neighbours_5 pets_vectors reduce_pca_def stub_projection first_two_def
      new_service_def Let_def normalize_Cat)

lemma pets_neighborhood_cat:
  "neighborhood_endpoint stub_libs pets ''tfidf'' ''cat'' ''pca'' 5 30 new_service =
     (Inr \<lparr>nr_query_word = ''cat'', nr_model_type = ''tfidf'', nr_reduction_method = ''pca'',
           nr_points =
             [\<lparr>pt_word = ''cat'', pt_x = 1, pt_y = 0, pt_similarity = 1, pt_is_query = True\<rparr>,
              \<lparr>pt_word = ''fish'', pt_x = 3, pt_y = -4, pt_similarity = 3/5, pt_is_query = False\<rparr>,
              \<lparr>pt_word = ''dog'', pt_x = 3, pt_y = 4, pt_similarity = 3/5, pt_is_query = False\<rparr>,
              \<lparr>pt_word = ''bird'', pt_x = 0, pt_y = 1, pt_similarity = 0, pt_is_query = False\<rparr>]\<rparr>,
      \<lparr>cache = [], projection_log = [PCA_call [[1, 0], [3, -4], [3, 4], [0, 1]]]\<rparr>)"
  by (simp add: neighborhood_endpoint_def neighborhood_body_def get_word_neighborhood_def
      MODEL_TYPES_def pets_neighbours_5 pets_vectors reduce_pca_def stub_projection first_two_def
      new_service_def Let_def normalize_pets)

text \<open>
  The claim for the queries \<open>''Cat ''\<close> and \<open>''cat''\<close>: both get the same four points, the
  first named as the query was written; \<open>is_query\<close> is set only for \<open>''cat''\<close>.
\<close>

theorem neighborhood_first_entry_is_raw_query_witness:
  "map pt_word (nr_points (projr (fst
      (neighborhood_endpoint stub_libs pets ''tfidf'' ''Cat '' ''pca'' 5 30 new_service)))) =
     [''Cat '', ''fish'', ''dog'', ''bird''] \<and>
   map pt_is_query (nr_points (projr (fst
      (neighborhood_endpoint stub_libs pets ''tfidf'' ''Cat '' ''pca'' 5 30 new_service)))) =
     [False, False, False, False] \<and>
   ''Cat '' \<noteq> normalize_word ''Cat '' \<and>
   map pt_is_query (nr_points (projr (fst
      (neighborhood_endpoint stub_libs pets ''tfidf'' ''cat'' ''pca'' 5 30 new_service)))) =
     [True, False, False, False] \<and>
   ''cat'' = normalize_word ''cat''"
proof -
  let ?Cat = "neighborhood_endpoint stub_libs pets ''tfidf'' ''Cat '' ''pca'' 5 30 new_service"
  let ?cat = "neighborhood_endpoint stub_libs pets ''tfidf'' ''cat'' ''pca'' 5 30 new_service"
  have run_Cat: "?Cat = (Inr (projr (fst ?Cat)), snd ?Cat)"
    by (simp add: pets_neighborhood_Cat)
  have run_cat: "?cat = (Inr (projr (fst ?cat)), snd ?cat)"
    by (simp add: pets_neighborhood_cat)
  have flags: "\<not> pt_is_query (hd (nr_points (projr (fst ?Cat))))"
    "pt_is_query (hd (nr_points (projr (fst ?cat))))"
    by (simp_all add: pets_neighborhood_Cat pets_neighborhood_cat)
  from neighborhood_first_entry_is_raw_query[where lb = stub_libs and ld = pets
      and mt = "''tfidf''" and meth = "''pca''" and nn = 5 and p = 30 and s = new_service
      and word = "''Cat ''" and resp = "projr (fst ?Cat)" and ?s1.0 = "snd ?Cat"] run_Cat flags(1)
  have "''Cat '' \<noteq> normalize_word ''Cat ''"
    by blast
  moreover from neighborhood_first_entry_is_raw_query[where lb = stub_libs and ld = pets
      and mt = "''tfidf''" and meth = "''pca''" and nn = 5 and p = 30 and s = new_service
      and word = "''cat''" and resp = "projr (fst ?cat)" and ?s1.0 = "snd ?cat"] run_cat flags(2)
  have "''cat'' = normalize_word ''cat''"
    by blast
  ultimately show ?thesis
    by (simp add: pets_neighborhood_Cat pets_neighborhood_cat)
qed

end
